theory Spec2Isabelle
  imports Main "HOL-Library.Word"
begin

section \<open>Values shared by the whole program\<close>

text \<open>
  JavaScript values that the code inspects dynamically (the \<open>code\<close> of an error object).
  HTTP status codes are integers, so numbers are modelled as \<open>int\<close>.
\<close>

datatype jsval = JUndefined | JNull | JNum int | JStr string

text \<open>
  A \<open>Date\<close>: either a time value in milliseconds or the Invalid Date (time value NaN).
  Every comparison with an Invalid Date is false, as with NaN.
\<close>

datatype jsdate = InvalidDate | Time int

fun date_gt :: "jsdate \<Rightarrow> jsdate \<Rightarrow> bool" where
  "date_gt (Time a) (Time b) = (a > b)"
| "date_gt _ _ = False"

fun date_ge :: "jsdate \<Rightarrow> jsdate \<Rightarrow> bool" where
  "date_ge (Time a) (Time b) = (a \<ge> b)"
| "date_ge _ _ = False"

text \<open>
  Errors thrown in the program. \<open>ApiError code status reason\<close> is an error object of the
  HTTP client with its \<open>code\<close> and \<open>response.status\<close> properties and the text
  \<open>errors[0].reason ?? message ?? ""\<close>; the next six are the
  \<open>new Error(message)\<close> objects the program builds itself, which carry neither property;
  \<open>TypeError\<close> is the one the runtime raises for \<open>reduce\<close> on an empty array,
  \<open>SyntaxError\<close> the one of \<open>JSON.parse\<close>, and \<open>InvalidConfig\<close> the error of
  \<open>loadConfigOrCreateDefault\<close> for a configuration without an array of accounts.
  \<open>ProcessExit n\<close> stands for \<open>process.exit(n)\<close>: it ends the run like an error that
  nothing catches.
\<close>

datatype js_error =
    ApiError jsval jsval string
  | ExpectedOneRnForTag string nat
  | ExpectedOneRnForName string nat
  | ExpectedOneGroupRnForTag string nat
  | MissingEtag string
  | MissingEtagGroup string
  | TimeoutError string
  | TypeError
  | SyntaxError
  | InvalidConfig
  | ProcessExit nat

section \<open>utils: \<open>duplicates\<close>, \<open>removePrefix\<close>\<close>

text \<open>A JavaScript \<open>Set\<close> keeps insertion order: a list without repetition.\<close>

definition set_add :: "'a list \<Rightarrow> 'a \<Rightarrow> 'a list" where
  "set_add s x = (if x \<in> set s then s else s @ [x])"

fun duplicates_loop :: "'a list \<Rightarrow> 'a list \<Rightarrow> 'a list \<Rightarrow> 'a list" where
  "duplicates_loop [] seen dups = dups"
| "duplicates_loop (item # items) seen dups =
     (if item \<in> set seen then duplicates_loop items seen (set_add dups item)
      else duplicates_loop items (set_add seen item) dups)"

definition duplicates :: "'a list \<Rightarrow> 'a list" where
  "duplicates items = duplicates_loop items [] []"

fun startsWith :: "string \<Rightarrow> string \<Rightarrow> bool" where
  "startsWith text [] = True"
| "startsWith [] (p # ps) = False"
| "startsWith (c # cs) (p # ps) = (c = p \<and> startsWith cs ps)"

definition removePrefix :: "string \<Rightarrow> string \<Rightarrow> string" where
  "removePrefix text pre = (if startsWith text pre then drop (length pre) text else text)"

section \<open>The Tag/Identity store of one replica\<close>

record ContactInfo =
  etag :: string
  tag :: "string option"
  updated :: jsdate
  name :: string

text \<open>
  \<open>Record<string, ContactInfo>\<close>: resource names are never integer-like, so the object
  enumerates its keys in insertion order. An assignment to an existing key keeps its place.
\<close>

type_synonym info = "(string \<times> ContactInfo) list"

fun obj_set :: "(string \<times> 'v) list \<Rightarrow> string \<Rightarrow> 'v \<Rightarrow> (string \<times> 'v) list" where
  "obj_set [] k v = [(k, v)]"
| "obj_set ((k', v') # kvs) k v = (if k' = k then (k, v) # kvs else (k', v') # obj_set kvs k v)"

text \<open>
  \<open>toLowerCase\<close>, exact on ASCII strings: the letters \<open>A\<close> to \<open>Z\<close> move to \<open>a\<close> to \<open>z\<close>.
\<close>

definition lower_char :: "char \<Rightarrow> char" where
  "lower_char c = (let n = (of_char c :: nat) in if 65 \<le> n \<and> n \<le> 90 then char_of (n + 32) else c)"

definition toLowerCase :: "string \<Rightarrow> string" where
  "toLowerCase s = map lower_char s"

definition tagToRn :: "info \<Rightarrow> string \<Rightarrow> js_error + string option" where
  "tagToRn st t =
     (let rn = map fst (filter (\<lambda>(k, v). tag v = Some t) st) in
      if length rn = 0 then Inr None
      else if length rn \<noteq> 1 then Inl (ExpectedOneRnForTag t (length rn))
      else Inr (Some (hd rn)))"

definition nameToRn :: "info \<Rightarrow> string \<Rightarrow> js_error + string option" where
  "nameToRn st n =
     (let rn = map fst (filter (\<lambda>(k, v). toLowerCase (name v) = toLowerCase n) st) in
      if length rn = 0 then Inr None
      else if length rn \<noteq> 1 then Inl (ExpectedOneRnForName n (length rn))
      else Inr (Some (hd rn)))"

definition rnToTagContactGroup :: "info \<Rightarrow> string \<Rightarrow> string option" where
  "rnToTagContactGroup infG rn = (case map_of infG rn of None \<Rightarrow> None | Some v \<Rightarrow> tag v)"

definition tagToRnContactGroup :: "info \<Rightarrow> string \<Rightarrow> js_error + string option" where
  "tagToRnContactGroup infG t =
     (let rn = map fst (filter (\<lambda>(k, v). tag v = Some t) infG) in
      if length rn = 0 then Inr None
      else if length rn \<noteq> 1 then Inl (ExpectedOneGroupRnForTag t (length rn))
      else Inr (Some (hd rn)))"

section \<open>\<open>newTag\<close>\<close>

text \<open>
  \<open>crypto.randomBytes\<close> is a stream of bytes \<open>rnd\<close> read from position \<open>pos\<close>. The loop
  has no bound: \<open>None\<close> is a call that never returns.
\<close>

definition randomBytes :: "(nat \<Rightarrow> 8 word) \<Rightarrow> nat \<Rightarrow> nat \<Rightarrow> 8 word list" where
  "randomBytes rnd pos n = map rnd [pos ..< pos + n]"

definition tag_of_bytes :: "8 word list \<Rightarrow> string" where
  "tag_of_bytes buf = map (\<lambda>b. char_of (97 + unat b mod 26)) buf"

partial_function (option) newTag ::
  "(nat \<Rightarrow> 8 word) \<Rightarrow> nat \<Rightarrow> string list \<Rightarrow> (string \<times> string list \<times> nat) option" where
  "newTag rnd pos used =
     (let t = tag_of_bytes (randomBytes rnd pos 20) in
      if t \<notin> set used then Some (t, used @ [t], pos + 20)
      else newTag rnd (pos + 20) used)"

declare newTag.simps [code]

text \<open>\<open>n\<close> successive calls of \<open>newTag\<close> on the same set of used tags, as a run makes them.\<close>

fun newTags :: "(nat \<Rightarrow> 8 word) \<Rightarrow> nat \<Rightarrow> nat \<Rightarrow> string list \<Rightarrow> (string list \<times> string list \<times> nat) option" where
  "newTags rnd 0 pos used = Some ([], used, pos)"
| "newTags rnd (Suc n) pos used =
     (case newTag rnd pos used of
        None \<Rightarrow> None
      | Some (t, used1, pos1) \<Rightarrow>
          (case newTags rnd n pos1 used1 of
             None \<Rightarrow> None
           | Some (ts, used2, pos2) \<Rightarrow> Some (t # ts, used2, pos2)))"

section \<open>utils: \<open>withBackoff\<close>, \<open>withTimeout\<close>\<close>

datatype 'a attempt = Resolved 'a | Rejected js_error

text \<open>\<open>err?.code ?? err?.response?.status\<close>\<close>

fun err_code :: "js_error \<Rightarrow> jsval" where
  "err_code (ApiError c s r) = (if c = JUndefined \<or> c = JNull then s else c)"
| "err_code _ = JUndefined"

definition retryable :: "jsval \<Rightarrow> bool" where
  "retryable code =
     (code = JNum 429 \<or> code = JNum 409 \<or>
      (case code of JNum n \<Rightarrow> n \<ge> 500 \<and> n \<le> 599 | _ \<Rightarrow> False))"

text \<open>
  \<open>fn\<close> is an effectful thunk: \<open>fn k\<close> is the outcome of its invocation number \<open>k\<close>.
  The result carries the delays slept, in order. \<open>None\<close>: the loop never ends.
\<close>

partial_function (option) withBackoff_loop ::
  "(nat \<Rightarrow> 'a attempt) \<Rightarrow> nat \<Rightarrow> nat \<Rightarrow> nat list \<Rightarrow> ('a attempt \<times> nat list) option" where
  "withBackoff_loop fn k delayMs slept =
     (case fn k of
        Resolved x \<Rightarrow> Some (Resolved x, slept)
      | Rejected err \<Rightarrow>
          if \<not> retryable (err_code err) then Some (Rejected err, slept)
          else withBackoff_loop fn (Suc k) (min (delayMs * 2) 30000) (slept @ [delayMs]))"

declare withBackoff_loop.simps [code]

definition withBackoff :: "(nat \<Rightarrow> 'a attempt) \<Rightarrow> ('a attempt \<times> nat list) option" where
  "withBackoff fn = withBackoff_loop fn 0 500 []"

text \<open>
  The race of \<open>withTimeout\<close>: the promise settles \<open>t\<close> milliseconds after the call, or
  never; it wins the race when it settles before the timer of \<open>max 1 ms\<close> fires.
\<close>

datatype 'a promise = Settles nat "'a attempt" | Pending

definition withTimeout :: "'a promise \<Rightarrow> int \<Rightarrow> string \<Rightarrow> 'a attempt" where
  "withTimeout promise ms message =
     (let timeoutMs = max 1 ms in
      case promise of
        Pending \<Rightarrow> Rejected (TimeoutError message)
      | Settles t r \<Rightarrow> if int t < timeoutMs then r else Rejected (TimeoutError message))"

section \<open>Raw entities of the People API and \<open>getInfo\<close>\<close>

record cgm =
  contactGroupId :: "string option"
  contactGroupResourceName :: "string option"

text \<open>A membership; \<open>m_other\<close> stands for a \<open>domainMembership\<close>.\<close>

record membership =
  contactGroupMembership :: "cgm option"
  m_other :: "string option"

text \<open>
  A person as the API returns it. \<open>p_names\<close> holds \<open>names[i].displayName\<close>,
  \<open>p_organizations\<close> holds \<open>organizations[i].name\<close>, \<open>p_clientData\<close> the key/value
  pairs, \<open>p_updateTime\<close> the parsed \<open>metadata.sources[0].updateTime\<close> (\<open>None\<close> when absent
  or empty), \<open>p_photos\<close> the photo fields and \<open>p_rest\<close> every other person field.
\<close>

record person =
  p_resourceName :: "string option"
  p_etag :: "string option"
  p_names :: "string option list option"
  p_organizations :: "string option list option"
  p_clientData :: "(string option \<times> string option) list option"
  p_updateTime :: "jsdate option"
  p_memberships :: "membership list option"
  p_photos :: "string option"
  p_rest :: string

record group =
  g_resourceName :: "string option"
  g_etag :: "string option"
  g_name :: "string option"
  g_groupType :: "string option"
  g_clientData :: "(string option \<times> string option) list option"
  g_updateTime :: "jsdate option"

definition SYNC_TAG :: string where
  "SYNC_TAG = ''csync-uid''"

text \<open>JavaScript truthiness of an optional string: present and not empty.\<close>

fun truthy :: "string option \<Rightarrow> bool" where
  "truthy None = False"
| "truthy (Some s) = (s \<noteq> [])"

text \<open>
  \<open>(clientData ?? []).filter(kv => kv?.key === SYNC_TAG).map(kv => kv?.value)
  .filter(v => typeof v === "string")\<close>, then \<open>tagls[0] ?? null\<close>.
\<close>

definition tagls :: "(string option \<times> string option) list option \<Rightarrow> string list" where
  "tagls cd =
     concat (map (\<lambda>(k, v). case v of None \<Rightarrow> [] | Some s \<Rightarrow> [s])
       (filter (\<lambda>(k, v). k = Some SYNC_TAG) (case cd of None \<Rightarrow> [] | Some l \<Rightarrow> l)))"

definition first_or_null :: "'a list \<Rightarrow> 'a option" where
  "first_or_null xs = (case xs of [] \<Rightarrow> None | x # _ \<Rightarrow> Some x)"

text \<open>\<open>p.names?.[0]?.displayName ?? p.organizations?.[0]?.name\<close>\<close>

definition person_name :: "person \<Rightarrow> string option" where
  "person_name p =
     (case (case p_names p of Some (Some d # _) \<Rightarrow> Some d | _ \<Rightarrow> None) of
        Some d \<Rightarrow> Some d
      | None \<Rightarrow> (case p_organizations p of Some (Some n # _) \<Rightarrow> Some n | _ \<Rightarrow> None))"

definition info_step :: "info \<Rightarrow> person \<Rightarrow> info" where
  "info_step st p =
     (if p_names p = None \<and> p_organizations p = None then st
      else case person_name p of
        None \<Rightarrow> st
      | Some nm \<Rightarrow>
          if nm = [] then st
          else let upd = (case p_updateTime p of None \<Rightarrow> Time 0 | Some d \<Rightarrow> d) in
            (case (p_resourceName p, p_etag p) of
               (Some rn, Some et) \<Rightarrow>
                 if rn = [] \<or> et = [] then st
                 else obj_set st rn
                   \<lparr>etag = et, tag = first_or_null (tagls (p_clientData p)), updated = upd, name = nm\<rparr>
             | _ \<Rightarrow> st))"

definition build_info :: "person list \<Rightarrow> info" where
  "build_info contacts = foldl info_step [] contacts"

definition infoGroup_step :: "info \<Rightarrow> group \<Rightarrow> info" where
  "infoGroup_step st g =
     (if g_groupType g \<noteq> Some ''USER_CONTACT_GROUP'' then st
      else let upd = (case g_updateTime g of None \<Rightarrow> Time 0 | Some d \<Rightarrow> d) in
        (case (g_resourceName g, g_etag g, g_name g) of
           (Some rn, Some et, Some nm) \<Rightarrow>
             if rn = [] \<or> et = [] \<or> nm = [] then st
             else obj_set st rn
               \<lparr>etag = et, tag = first_or_null (tagls (g_clientData g)), updated = upd, name = nm\<rparr>
         | _ \<Rightarrow> st))"

definition build_infoGroup :: "group list \<Rightarrow> info" where
  "build_infoGroup groups = foldl infoGroup_step [] groups"

section \<open>The remote side and the state of a run\<close>

text \<open>
  Every request to the People API, every local file operation and every sleep of a run is
  an entry of the run's log, in order.
\<close>

text \<open>
  The configuration file. \<open>cfg_last\<close> is the parsed \<open>last\<close> (\<open>None\<close> when it is absent,
  empty or not a string), \<open>backupdays\<close> is \<open>None\<close> when it is not a finite number, and an
  account entry whose \<open>user\<close>, \<open>keyfile\<close> or \<open>credfile\<close> is not a string has \<open>None\<close> there.
\<close>

record JsonAccountConfig =
  user :: "string option"
  keyfile :: "string option"
  credfile :: "string option"

record JsonConfig =
  cfg_last :: "jsdate option"
  backupdays :: "int option"
  accounts :: "JsonAccountConfig list"

datatype call =
    Authenticate string
  | ConnectionsList string "string list"
  | PeopleGet string string "string list"
  | CreateContact string person
  | UpdateContact string string "string list" person
  | DeleteContact string string
  | GroupsList string
  | GroupsGet string string "string list"
  | GroupsCreate string group
  | GroupsUpdate string string group "string list"
  | GroupsDelete string string
  | Sleep nat
  | RotateBackups int
  | WriteBackup
  | WriteConfig JsonConfig
  | MkdirConfigDir
  | ReadConfigJson
  | ReadConfigIni

text \<open>
  The collaborators: what a request made after the log \<open>h\<close> comes back with, as a promise,
  the bytes of the random source and the clock (\<open>Date.now()\<close> after the log \<open>h\<close>).
  \<open>apiTimeoutMs\<close> is the field of the same name of every \<open>Contacts\<close> object.
\<close>

record env =
  srv_persons :: "call list \<Rightarrow> call \<Rightarrow> person list promise"
  srv_groups :: "call list \<Rightarrow> call \<Rightarrow> group list promise"
  srv_person :: "call list \<Rightarrow> call \<Rightarrow> person promise"
  srv_group :: "call list \<Rightarrow> call \<Rightarrow> group promise"
  srv_unit :: "call list \<Rightarrow> call \<Rightarrow> unit promise"
  random_source :: "nat \<Rightarrow> 8 word"
  clock :: "call list \<Rightarrow> int"
  apiTimeoutMs :: int

record replica =
  info :: info
  infoGroup :: info

text \<open>
  \<open>con\<close> is the \<open>Map\<close> from the user of an account to its \<open>Contacts\<close> object; an object
  is the same as another exactly when its key is.
\<close>

record world =
  calls :: "call list"
  con :: "(string \<times> replica) list"
  usedTags :: "string list"
  rnd_pos :: nat

text \<open>
  An asynchronous computation: from a state to its outcome and the new state, or to
  \<open>None\<close> when it never comes back.
\<close>

type_synonym 'a M = "world \<Rightarrow> ('a attempt \<times> world) option"

definition returnM :: "'a \<Rightarrow> 'a M" where
  "returnM x = (\<lambda>w. Some (Resolved x, w))"

definition throwM :: "js_error \<Rightarrow> 'a M" where
  "throwM e = (\<lambda>w. Some (Rejected e, w))"

definition bindM :: "'a M \<Rightarrow> ('a \<Rightarrow> 'b M) \<Rightarrow> 'b M" where
  "bindM m f = (\<lambda>w. case m w of
       None \<Rightarrow> None
     | Some (Rejected e, w') \<Rightarrow> Some (Rejected e, w')
     | Some (Resolved x, w') \<Rightarrow> f x w')"

definition modifyM :: "(world \<Rightarrow> world) \<Rightarrow> unit M" where
  "modifyM g = (\<lambda>w. Some (Resolved (), g w))"

definition readM :: "(world \<Rightarrow> 'a M) \<Rightarrow> 'a M" where
  "readM g = (\<lambda>w. g w w)"

fun forM :: "'a list \<Rightarrow> ('a \<Rightarrow> unit M) \<Rightarrow> unit M" where
  "forM [] f = returnM ()"
| "forM (x # xs) f = bindM (f x) (\<lambda>_. forM xs f)"

fun foldM :: "('s \<Rightarrow> 'a \<Rightarrow> 's M) \<Rightarrow> 's \<Rightarrow> 'a list \<Rightarrow> 's M" where
  "foldM f s [] = returnM s"
| "foldM f s (x # xs) = bindM (f s x) (\<lambda>s'. foldM f s' xs)"

definition logged :: "call \<Rightarrow> world \<Rightarrow> world" where
  "logged c w = w\<lparr>calls := calls w @ [c]\<rparr>"

text \<open>\<open>await withTimeout(request, this.apiTimeoutMs, message)\<close>\<close>

definition api_timed :: "env \<Rightarrow> (call list \<Rightarrow> call \<Rightarrow> 'a promise) \<Rightarrow> call \<Rightarrow> string \<Rightarrow> 'a M" where
  "api_timed ev srv c message =
     (\<lambda>w. Some (withTimeout (srv (calls w) c) (apiTimeoutMs ev) message, logged c w))"

text \<open>\<open>await request\<close>, with no timer: a promise that stays pending never comes back.\<close>

definition api_plain :: "(call list \<Rightarrow> call \<Rightarrow> 'a promise) \<Rightarrow> call \<Rightarrow> 'a M" where
  "api_plain srv c =
     (\<lambda>w. case srv (calls w) c of Pending \<Rightarrow> None | Settles t r \<Rightarrow> Some (r, logged c w))"

text \<open>\<open>withBackoff\<close> around a computation of a run; each sleep is logged.\<close>

partial_function (option) withBackoffM_loop :: "'a M \<Rightarrow> nat \<Rightarrow> world \<Rightarrow> ('a attempt \<times> world) option" where
  "withBackoffM_loop fn delayMs w =
     (case fn w of
        None \<Rightarrow> None
      | Some (Resolved x, w') \<Rightarrow> Some (Resolved x, w')
      | Some (Rejected err, w') \<Rightarrow>
          if \<not> retryable (err_code err) then Some (Rejected err, w')
          else withBackoffM_loop fn (min (delayMs * 2) 30000) (logged (Sleep delayMs) w'))"

declare withBackoffM_loop.simps [code]

definition withBackoffM :: "'a M \<Rightarrow> 'a M" where
  "withBackoffM fn = withBackoffM_loop fn 500"

text \<open>\<open>newTag(usedTags)\<close> on the random source of the run.\<close>

definition newTagM :: "env \<Rightarrow> string M" where
  "newTagM ev =
     (\<lambda>w. case newTag (random_source ev) (rnd_pos w) (usedTags w) of
        None \<Rightarrow> None
      | Some (t, used, pos) \<Rightarrow> Some (Resolved t, w\<lparr>usedTags := used, rnd_pos := pos\<rparr>))"

section \<open>The \<open>Contacts\<close> class\<close>

definition empty_replica :: replica where
  "empty_replica = \<lparr>info = [], infoGroup = []\<rparr>"

text \<open>The object under key \<open>u\<close>; every key used in a run is a key of \<open>con\<close>.\<close>

definition the_replica :: "world \<Rightarrow> string \<Rightarrow> replica" where
  "the_replica w u = (case map_of (con w) u of Some r \<Rightarrow> r | None \<Rightarrow> empty_replica)"

definition set_info :: "string \<Rightarrow> info \<Rightarrow> world \<Rightarrow> world" where
  "set_info u i w = w\<lparr>con := map (\<lambda>(k, r). if k = u then (k, r\<lparr>info := i\<rparr>) else (k, r)) (con w)\<rparr>"

definition set_infoGroup :: "string \<Rightarrow> info \<Rightarrow> world \<Rightarrow> world" where
  "set_infoGroup u i w =
     w\<lparr>con := map (\<lambda>(k, r). if k = u then (k, r\<lparr>infoGroup := i\<rparr>) else (k, r)) (con w)\<rparr>"

definition allPersonFields :: "string list" where
  "allPersonFields = [''addresses'', ''ageRanges'', ''biographies'', ''birthdays'', ''calendarUrls'',
     ''clientData'', ''coverPhotos'', ''emailAddresses'', ''events'', ''externalIds'', ''genders'',
     ''imClients'', ''interests'', ''locales'', ''locations'', ''memberships'', ''metadata'',
     ''miscKeywords'', ''names'', ''nicknames'', ''occupations'', ''organizations'', ''phoneNumbers'',
     ''photos'', ''relations'', ''sipAddresses'', ''skills'', ''urls'', ''userDefined'']"

definition allUpdatePersonFields :: "string list" where
  "allUpdatePersonFields = [''addresses'', ''biographies'', ''birthdays'', ''clientData'',
     ''emailAddresses'', ''events'', ''externalIds'', ''genders'', ''imClients'', ''interests'',
     ''locales'', ''locations'', ''memberships'', ''names'', ''nicknames'', ''occupations'',
     ''organizations'', ''phoneNumbers'', ''relations'', ''sipAddresses'', ''urls'', ''userDefined'']"

definition groupReadFields :: "string list" where
  "groupReadFields = [''clientData'', ''groupType'', ''metadata'', ''name'']"

text \<open>
  \<open>stripPersonForUpdate\<close>: the metadata, the photos, the resource name and the etag go,
  and only the first name stays. The fields gathered in \<open>p_rest\<close> are opaque here.
\<close>

definition stripPersonForUpdate :: "person \<Rightarrow> person" where
  "stripPersonForUpdate body =
     body\<lparr>p_resourceName := None, p_etag := None, p_updateTime := None, p_photos := None,
       p_names := (case p_names body of Some (n # ns) \<Rightarrow> Some [n] | other \<Rightarrow> other)\<rparr>"

definition empty_person :: person where
  "empty_person = \<lparr>p_resourceName = None, p_etag = None, p_names = None, p_organizations = None,
     p_clientData = None, p_updateTime = None, p_memberships = None, p_photos = None, p_rest = []\<rparr>"

definition empty_group :: group where
  "empty_group = \<lparr>g_resourceName = None, g_etag = None, g_name = None, g_groupType = None,
     g_clientData = None, g_updateTime = None\<rparr>"

text \<open>The page loop of a listing is folded into one request.\<close>

definition getAllContacts :: "env \<Rightarrow> string \<Rightarrow> string list \<Rightarrow> person list M" where
  "getAllContacts ev u personFields =
     api_timed ev (srv_persons ev) (ConnectionsList u personFields) (''Timeout listing contacts for '' @ u)"

definition getContactGroups :: "env \<Rightarrow> string \<Rightarrow> group list M" where
  "getContactGroups ev u =
     withBackoffM (api_timed ev (srv_groups ev) (GroupsList u)
       (''Timeout listing contact groups for '' @ u))"

definition getInfo :: "env \<Rightarrow> string \<Rightarrow> unit M" where
  "getInfo ev u =
     bindM (modifyM (set_info u [])) (\<lambda>_.
     bindM (getAllContacts ev u [''names'', ''organizations'', ''clientData'', ''metadata'']) (\<lambda>contacts.
     bindM (modifyM (set_info u (build_info contacts))) (\<lambda>_.
     bindM (modifyM (set_infoGroup u [])) (\<lambda>_.
     bindM (getContactGroups ev u) (\<lambda>groups.
     modifyM (set_infoGroup u (build_infoGroup groups)))))))"

definition init_account :: "env \<Rightarrow> string \<Rightarrow> unit M" where
  "init_account ev u =
     bindM (api_plain (srv_unit ev) (Authenticate u)) (\<lambda>_. getInfo ev u)"

definition delete_contact :: "env \<Rightarrow> string \<Rightarrow> string \<Rightarrow> unit M" where
  "delete_contact ev u t =
     readM (\<lambda>w. case tagToRn (info (the_replica w u)) t of
        Inl e \<Rightarrow> throwM e
      | Inr None \<Rightarrow> returnM ()
      | Inr (Some rn) \<Rightarrow>
          if rn = [] then returnM ()
          else withBackoffM (api_timed ev (srv_unit ev) (DeleteContact u rn)
                 (''Timeout deleting contact '' @ rn @ '' for '' @ u)))"

definition with_tag :: "(string option \<times> string option) list option \<Rightarrow> string
    \<Rightarrow> (string option \<times> string option) list" where
  "with_tag cd t =
     filter (\<lambda>(k, v). k \<noteq> Some SYNC_TAG) (case cd of None \<Rightarrow> [] | Some l \<Rightarrow> l) @ [(Some SYNC_TAG, Some t)]"

definition updateTag :: "env \<Rightarrow> string \<Rightarrow> string \<Rightarrow> string \<Rightarrow> unit M" where
  "updateTag ev u rn t =
     withBackoffM
       (bindM (api_timed ev (srv_person ev) (PeopleGet u rn [''clientData''])
                (''Timeout reading clientData for '' @ rn @ '' ('' @ u @ '')'')) (\<lambda>p.
        readM (\<lambda>w. case map_of (info (the_replica w u)) rn of
           None \<Rightarrow> throwM (MissingEtag rn)
         | Some v \<Rightarrow>
             if etag v = [] then throwM (MissingEtag rn)
             else api_timed ev (srv_unit ev)
                    (UpdateContact u rn [''clientData'']
                       (empty_person\<lparr>p_etag := Some (etag v), p_clientData := Some (with_tag (p_clientData p) t)\<rparr>))
                    (''Timeout updating clientData for '' @ rn @ '' ('' @ u @ '')''))))"

definition add_contact :: "env \<Rightarrow> string \<Rightarrow> person \<Rightarrow> person M" where
  "add_contact ev u body =
     withBackoffM (api_timed ev (srv_person ev) (CreateContact u body)
       (''Timeout creating contact for '' @ u))"

definition update_contact :: "env \<Rightarrow> string \<Rightarrow> string \<Rightarrow> person \<Rightarrow> unit M" where
  "update_contact ev u t body =
     readM (\<lambda>w. case tagToRn (info (the_replica w u)) t of
        Inl e \<Rightarrow> throwM e
      | Inr None \<Rightarrow> returnM ()
      | Inr (Some rn) \<Rightarrow>
          if rn = [] then returnM ()
          else withBackoffM
            (readM (\<lambda>w. case map_of (info (the_replica w u)) rn of
               None \<Rightarrow> throwM (MissingEtag rn)
             | Some v \<Rightarrow>
                 if etag v = [] then throwM (MissingEtag rn)
                 else api_timed ev (srv_unit ev)
                        (UpdateContact u rn allUpdatePersonFields (body\<lparr>p_etag := Some (etag v)\<rparr>))
                        (''Timeout updating contact '' @ rn @ '' for '' @ u))))"

definition get_contact :: "env \<Rightarrow> string \<Rightarrow> string \<Rightarrow> person M" where
  "get_contact ev u rn =
     bindM (withBackoffM (api_timed ev (srv_person ev) (PeopleGet u rn allPersonFields)
              (''Timeout getting contact '' @ rn @ '' for '' @ u)))
       (\<lambda>p. returnM (stripPersonForUpdate p))"

text \<open>\<open>try { m } catch (e) { h e }\<close>; a process exit is not an exception.\<close>

definition catchM :: "'a M \<Rightarrow> (js_error \<Rightarrow> 'a M) \<Rightarrow> 'a M" where
  "catchM m h = (\<lambda>w. case m w of
       Some (Rejected e, w') \<Rightarrow> (case e of ProcessExit n \<Rightarrow> Some (Rejected e, w') | _ \<Rightarrow> h e w')
     | other \<Rightarrow> other)"

fun js_includes :: "string \<Rightarrow> string \<Rightarrow> bool" where
  "js_includes [] sub = (sub = [])"
| "js_includes (c # cs) sub = (startsWith (c # cs) sub \<or> js_includes cs sub)"

fun err_reason :: "js_error \<Rightarrow> string" where
  "err_reason (ApiError c s r) = r"
| "err_reason _ = []"

definition getContactGroup :: "env \<Rightarrow> string \<Rightarrow> string \<Rightarrow> group M" where
  "getContactGroup ev u rn =
     withBackoffM (api_timed ev (srv_group ev) (GroupsGet u rn groupReadFields)
       (''Timeout getting contact group '' @ rn @ '' for '' @ u))"

definition addContactGroup :: "env \<Rightarrow> string \<Rightarrow> group \<Rightarrow> group M" where
  "addContactGroup ev u body = withBackoffM (api_plain (srv_group ev) (GroupsCreate u body))"

definition has_sync_tag :: "group \<Rightarrow> bool" where
  "has_sync_tag g = list_ex (\<lambda>(k, v). k = Some SYNC_TAG) (case g_clientData g of None \<Rightarrow> [] | Some l \<Rightarrow> l)"

partial_function (option) getContactGroupWaitSyncTag_loop ::
  "env \<Rightarrow> string \<Rightarrow> string \<Rightarrow> nat \<Rightarrow> world \<Rightarrow> (group attempt \<times> world) option" where
  "getContactGroupWaitSyncTag_loop ev u rn delayMs w =
     (case getContactGroup ev u rn w of
        None \<Rightarrow> None
      | Some (Rejected e, w') \<Rightarrow> Some (Rejected e, w')
      | Some (Resolved cont, w') \<Rightarrow>
          if has_sync_tag cont then Some (Resolved cont, w')
          else getContactGroupWaitSyncTag_loop ev u rn (min (delayMs * 2) 30000) (logged (Sleep delayMs) w'))"

declare getContactGroupWaitSyncTag_loop.simps [code]

definition getContactGroupWaitSyncTag :: "env \<Rightarrow> string \<Rightarrow> string \<Rightarrow> group M" where
  "getContactGroupWaitSyncTag ev u rn = getContactGroupWaitSyncTag_loop ev u rn 500"

definition patch_infoGroup :: "string \<Rightarrow> string \<Rightarrow> group \<Rightarrow> world \<Rightarrow> world" where
  "patch_infoGroup u rn fresh w =
     (let st = infoGroup (the_replica w u);
          currentTag = (case map_of st rn of None \<Rightarrow> None | Some v \<Rightarrow> tag v) in
      case (g_resourceName fresh, g_etag fresh, g_name fresh) of
        (Some frn, Some fet, Some fnm) \<Rightarrow>
          if frn = [] \<or> fet = [] \<or> fnm = [] then w
          else set_infoGroup u (obj_set st frn
                 \<lparr>etag = fet, tag = currentTag,
                  updated = (case g_updateTime fresh of None \<Rightarrow> Time 0 | Some d \<Rightarrow> d), name = fnm\<rparr>) w
      | _ \<Rightarrow> w)"

definition updateContactGroupTag :: "env \<Rightarrow> string \<Rightarrow> string \<Rightarrow> string \<Rightarrow> unit M" where
  "updateContactGroupTag ev u rn t =
     withBackoffM
       (catchM
          (bindM (api_plain (srv_group ev) (GroupsGet u rn [''clientData''])) (\<lambda>p.
           readM (\<lambda>w. case map_of (infoGroup (the_replica w u)) rn of
              None \<Rightarrow> throwM (MissingEtagGroup rn)
            | Some v \<Rightarrow>
                if etag v = [] then throwM (MissingEtagGroup rn)
                else bindM (api_plain (srv_group ev)
                       (GroupsUpdate u rn
                          (empty_group\<lparr>g_etag := Some (etag v), g_clientData := Some (with_tag (g_clientData p) t)\<rparr>)
                          [''clientData''])) (\<lambda>_. returnM ()))))
          (\<lambda>e. if err_code e = JNum 409 \<and> js_includes (err_reason e) ''etag''
                then bindM (getContactGroup ev u rn) (\<lambda>fresh.
                     bindM (modifyM (patch_infoGroup u rn fresh)) (\<lambda>_. throwM e))
                else throwM e))"

definition updateContactGroup :: "env \<Rightarrow> string \<Rightarrow> string \<Rightarrow> group \<Rightarrow> unit M" where
  "updateContactGroup ev u t body =
     readM (\<lambda>w. case tagToRnContactGroup (infoGroup (the_replica w u)) t of
        Inl e \<Rightarrow> throwM e
      | Inr None \<Rightarrow> returnM ()
      | Inr (Some rn) \<Rightarrow>
          if rn = [] then returnM ()
          else withBackoffM
            (readM (\<lambda>w. bindM (api_plain (srv_group ev)
               (GroupsUpdate u rn
                  (empty_group\<lparr>g_etag := map_option etag (map_of (infoGroup (the_replica w u)) rn),
                     g_name := g_name body\<rparr>) [])) (\<lambda>_. returnM ()))))"

definition deleteContactGroup :: "env \<Rightarrow> string \<Rightarrow> string \<Rightarrow> unit M" where
  "deleteContactGroup ev u t =
     readM (\<lambda>w. case tagToRnContactGroup (infoGroup (the_replica w u)) t of
        Inl e \<Rightarrow> throwM e
      | Inr None \<Rightarrow> returnM ()
      | Inr (Some rn) \<Rightarrow>
          if rn = [] then returnM ()
          else withBackoffM (api_plain (srv_unit ev) (GroupsDelete u rn)))"

section \<open>\<open>runSync\<close>: the pure steps\<close>

record SyncOptions =
  init :: bool
  rlimSeconds :: "nat option"

text \<open>\<open>Object.values(st).map(v => v.tag).filter(t => !!t)\<close>: the tags of a store, the empty one left out.\<close>

definition tags_of :: "info \<Rightarrow> string list" where
  "tags_of st = concat (map (\<lambda>(rn, v). case tag v of None \<Rightarrow> [] | Some t \<Rightarrow> if t = [] then [] else [t]) st)"

text \<open>The set \<open>allTags\<close> (and \<open>allGroupTags\<close>) over the stores of the active accounts.\<close>

definition all_tags :: "info list \<Rightarrow> string list" where
  "all_tags stores = foldl (\<lambda>s st. foldl set_add s (tags_of st)) [] stores"

text \<open>The set \<open>toDelete\<close> (and \<open>groupsToDelete\<close>).\<close>

definition to_delete :: "string list \<Rightarrow> info list \<Rightarrow> string list" where
  "to_delete allTags stores =
     foldl (\<lambda>s st. foldl set_add s (filter (\<lambda>t. t \<notin> set (tags_of st)) allTags)) [] stores"

text \<open>\<open>Object.values(acc.info).every(v => v.tag === null)\<close>\<close>

definition allNone :: "info \<Rightarrow> bool" where
  "allNone st = list_all (\<lambda>(rn, v). tag v = None) st"

text \<open>The entries \<open>toAdd\<close> of a store: those whose tag is \<open>null\<close>.\<close>

definition to_add :: "info \<Rightarrow> (string \<times> string) list" where
  "to_add st = map (\<lambda>(rn, v). (rn, name v)) (filter (\<lambda>(rn, v). tag v = None) st)"

record cand =
  c_acc :: string
  c_rn :: string
  c_updated :: jsdate

text \<open>
  The map \<open>contactUpdates\<close> (and \<open>groupUpdates\<close>) from a tag to its update candidates,
  over the active accounts and their stores, in order.
\<close>

definition collect_step :: "jsdate \<Rightarrow> (string \<times> string) list \<Rightarrow> string
    \<Rightarrow> (string \<times> cand list) list \<Rightarrow> string \<times> ContactInfo \<Rightarrow> (string \<times> cand list) list" where
  "collect_step lastUpdate added u m e =
     (case e of (rn, v) \<Rightarrow>
        (case tag v of
           None \<Rightarrow> m
         | Some t \<Rightarrow>
             if t = [] then m
             else if date_gt (updated v) lastUpdate \<and> (u, rn) \<notin> set added
             then obj_set m t ((case map_of m t of None \<Rightarrow> [] | Some l \<Rightarrow> l)
                    @ [\<lparr>c_acc = u, c_rn = rn, c_updated = updated v\<rparr>])
             else m))"

definition collect_updates :: "jsdate \<Rightarrow> (string \<times> string) list \<Rightarrow> (string \<times> info) list
    \<Rightarrow> (string \<times> cand list) list" where
  "collect_updates lastUpdate added stores =
     foldl (\<lambda>m (u, st). foldl (collect_step lastUpdate added u) m st) [] stores"

text \<open>\<open>val.reduce((a, b) => (a.updated >= b.updated ? a : b))\<close>\<close>

definition newest_of :: "cand list \<Rightarrow> cand option" where
  "newest_of val =
     (case val of
        [] \<Rightarrow> None
      | a # bs \<Rightarrow> Some (foldl (\<lambda>a b. if date_ge (c_updated a) (c_updated b) then a else b) a bs))"

definition myContacts :: string where
  "myContacts = ''contactGroups/myContacts''"

text \<open>The group resource names of the memberships of a contact, the default one left out.\<close>

definition groupRns_of :: "person \<Rightarrow> string list" where
  "groupRns_of contact =
     concat (map (\<lambda>grp. case contactGroupMembership grp of
                None \<Rightarrow> []
              | Some g \<Rightarrow> (case contactGroupResourceName g of
                   None \<Rightarrow> []
                 | Some rn \<Rightarrow> if rn \<noteq> myContacts then [rn] else []))
       (case p_memberships contact of None \<Rightarrow> [] | Some l \<Rightarrow> l))"

text \<open>\<open>contact.memberships = (contact.memberships ?? []).filter(...)\<close>: only the default stays.\<close>

definition keep_myContacts :: "person \<Rightarrow> person" where
  "keep_myContacts contact =
     contact\<lparr>p_memberships := Some (filter (\<lambda>grp. case contactGroupMembership grp of
                None \<Rightarrow> False
              | Some g \<Rightarrow> contactGroupResourceName g = Some myContacts)
       (case p_memberships contact of None \<Rightarrow> [] | Some l \<Rightarrow> l))\<rparr>"

definition mk_membership :: "string \<Rightarrow> membership" where
  "mk_membership rn =
     \<lparr>contactGroupMembership =
        Some \<lparr>contactGroupId = Some (removePrefix rn ''contactGroups/''), contactGroupResourceName = Some rn\<rparr>,
      m_other = None\<rparr>"

text \<open>
  The loop over \<open>groupTags\<close> that pushes the groups of the destination onto the copy;
  \<open>infG\<close> is the group store of the destination.
\<close>

fun push_memberships :: "info \<Rightarrow> string option list \<Rightarrow> membership list \<Rightarrow> js_error + membership list" where
  "push_memberships infG [] ms = Inr ms"
| "push_memberships infG (groupTag # rest) ms =
     (if \<not> truthy groupTag then push_memberships infG rest ms
      else case tagToRnContactGroup infG (case groupTag of Some t \<Rightarrow> t | None \<Rightarrow> []) of
          Inl e \<Rightarrow> Inl e
        | Inr rnOther \<Rightarrow>
            if \<not> truthy rnOther then push_memberships infG rest ms
            else push_memberships infG rest
                   (ms @ [mk_membership (case rnOther of Some rn \<Rightarrow> rn | None \<Rightarrow> [])]))"

text \<open>
  The body written to one destination: \<open>contact\<close> has passed \<open>keep_myContacts\<close>, and
  \<open>groupTags\<close> are the tags of the groups of the source contact.
\<close>

definition body_for :: "info \<Rightarrow> string option list \<Rightarrow> person \<Rightarrow> js_error + person" where
  "body_for infG groupTags contact =
     (if filter truthy groupTags \<noteq> [] then
        (case push_memberships infG groupTags (case p_memberships contact of None \<Rightarrow> [] | Some l \<Rightarrow> l) of
           Inl e \<Rightarrow> Inl e
         | Inr ms \<Rightarrow> Inr (contact\<lparr>p_memberships := Some ms\<rparr>))
      else Inr contact)"

text \<open>\<open>getAccounts\<close>, \<open>getBackupDays\<close>, \<open>getLastRunIso\<close> and \<open>safeDate\<close>\<close>

definition getAccounts :: "JsonConfig \<Rightarrow> string list" where
  "getAccounts cfg =
     concat (map (\<lambda>a. case (user a, keyfile a, credfile a) of
                (Some u, Some k, Some c) \<Rightarrow> [u] | _ \<Rightarrow> []) (accounts cfg))"

definition getBackupDays :: "JsonConfig \<Rightarrow> int" where
  "getBackupDays cfg = (case backupdays cfg of None \<Rightarrow> 0 | Some n \<Rightarrow> n)"

definition getLastRunIso :: "JsonConfig \<Rightarrow> jsdate" where
  "getLastRunIso cfg = (case cfg_last cfg of None \<Rightarrow> Time 63072000000 | Some d \<Rightarrow> d)"

definition safeDate :: "jsdate \<Rightarrow> jsdate" where
  "safeDate d = (case d of InvalidDate \<Rightarrow> Time 0 | Time t \<Rightarrow> Time t)"

section \<open>\<open>runSync\<close>: the phases\<close>

definition stores :: "world \<Rightarrow> string list \<Rightarrow> info list" where
  "stores w us = map (\<lambda>u. info (the_replica w u)) us"

definition storesGroup :: "world \<Rightarrow> string list \<Rightarrow> info list" where
  "storesGroup w us = map (\<lambda>u. infoGroup (the_replica w u)) us"

text \<open>The accounts are initialised one after the other and entered into \<open>con\<close>.\<close>

definition init_accounts :: "env \<Rightarrow> string list \<Rightarrow> unit M" where
  "init_accounts ev us =
     forM us (\<lambda>u.
       bindM (modifyM (\<lambda>w. w\<lparr>con := obj_set (con w) u empty_replica\<rparr>)) (\<lambda>_. init_account ev u))"

text \<open>
  The backup: the files are rotated, every account is listed again, and the snapshot is
  written. The content of the snapshot is not modelled.
\<close>

definition backup_phase :: "env \<Rightarrow> int \<Rightarrow> unit M" where
  "backup_phase ev backupDays =
     (if backupDays > 0 then
        bindM (api_plain (srv_unit ev) (RotateBackups backupDays)) (\<lambda>_.
        bindM (readM (\<lambda>w. forM (map fst (con w)) (\<lambda>u.
                 bindM (getContactGroups ev u) (\<lambda>_.
                 bindM (getAllContacts ev u allPersonFields) (\<lambda>_. returnM ()))))) (\<lambda>_.
        api_plain (srv_unit ev) WriteBackup))
      else returnM ())"

definition set_tag :: "string \<Rightarrow> string \<Rightarrow> string \<Rightarrow> world \<Rightarrow> world" where
  "set_tag u rn t w =
     set_info u (map (\<lambda>(k, v). if k = rn then (k, v\<lparr>tag := Some t\<rparr>) else (k, v)) (info (the_replica w u))) w"

text \<open>The body of the inner loop of the init mode, for the entry \<open>(rn, p)\<close> of account \<open>u\<close>.\<close>

definition init_entry :: "env \<Rightarrow> SyncOptions \<Rightarrow> string list \<Rightarrow> string \<Rightarrow> string list
    \<Rightarrow> string \<times> ContactInfo \<Rightarrow> string list M" where
  "init_entry ev opts keys u done e =
     (case e of (rn, p) \<Rightarrow>
        if name p \<in> set done then returnM done
        else
          bindM (if \<not> truthy (tag p)
                 then bindM (newTagM ev) (\<lambda>t.
                      bindM (updateTag ev u rn t) (\<lambda>_.
                      bindM (modifyM (set_tag u rn t)) (\<lambda>_. returnM t)))
                 else returnM (case tag p of Some t \<Rightarrow> t | None \<Rightarrow> [])) (\<lambda>t.
          bindM (get_contact ev u rn) (\<lambda>newcontact.
          bindM (forM keys (\<lambda>other.
                   if other = u then returnM ()
                   else readM (\<lambda>w. case nameToRn (info (the_replica w other)) (name p) of
                      Inl err \<Rightarrow> throwM err
                    | Inr otherRn \<Rightarrow>
                        if truthy otherRn
                        then bindM (updateTag ev other (case otherRn of Some r \<Rightarrow> r | None \<Rightarrow> []) t) (\<lambda>_.
                             update_contact ev other t newcontact)
                        else bindM (add_contact ev other newcontact) (\<lambda>_. returnM ())))) (\<lambda>_.
          bindM (case rlimSeconds opts of
                   None \<Rightarrow> returnM ()
                 | Some s \<Rightarrow> if s > 0 then modifyM (logged (Sleep (s * 1000))) else returnM ()) (\<lambda>_.
          returnM (set_add done (name p)))))))"

definition init_phase :: "env \<Rightarrow> SyncOptions \<Rightarrow> unit M" where
  "init_phase ev opts =
     readM (\<lambda>w0. let keys = map fst (con w0) in
       bindM (forM keys (\<lambda>u. readM (\<lambda>w.
                if duplicates (map (\<lambda>(rn, i). name i) (info (the_replica w u))) \<noteq> []
                then throwM (ProcessExit 1) else returnM ()))) (\<lambda>_.
       bindM (foldM (\<lambda>done u. readM (\<lambda>w.
                foldM (init_entry ev opts keys u) done (info (the_replica w u)))) [] keys) (\<lambda>_.
       returnM ())))"

text \<open>Deletion, for the contact groups and for the contacts.\<close>

definition groups_delete_phase :: "env \<Rightarrow> string list \<Rightarrow> unit M" where
  "groups_delete_phase ev active =
     readM (\<lambda>w.
       let allGroupTags = all_tags (storesGroup w active);
           groupsToDelete = to_delete allGroupTags (storesGroup w active) in
       if groupsToDelete \<noteq> [] then
         bindM (forM active (\<lambda>u. forM groupsToDelete (\<lambda>t. deleteContactGroup ev u t))) (\<lambda>_.
         forM active (getInfo ev))
       else returnM ())"

definition contacts_delete_phase :: "env \<Rightarrow> string list \<Rightarrow> unit M" where
  "contacts_delete_phase ev active =
     readM (\<lambda>w.
       let allTags = all_tags (stores w active);
           toDelete = to_delete allTags (stores w active) in
       if toDelete \<noteq> [] then
         bindM (forM active (\<lambda>u. forM toDelete (\<lambda>t. delete_contact ev u t))) (\<lambda>_.
         forM active (getInfo ev))
       else returnM ())"

text \<open>Addition; the result is the list \<open>addedGroups\<close>, or \<open>addedContacts\<close>.\<close>

definition group_body :: "group \<Rightarrow> group" where
  "group_body grp = empty_group\<lparr>g_name := g_name grp, g_clientData := g_clientData grp\<rparr>"

definition groups_add_phase :: "env \<Rightarrow> string list \<Rightarrow> (string \<times> string) list M" where
  "groups_add_phase ev active =
     foldM (\<lambda>added u. readM (\<lambda>w.
       foldM (\<lambda>added (rn, nm).
           bindM (newTagM ev) (\<lambda>t.
           bindM (updateContactGroupTag ev u rn t) (\<lambda>_.
           bindM (getContactGroupWaitSyncTag ev u rn) (\<lambda>grp.
           foldM (\<lambda>added other.
               if other = u then returnM added
               else bindM (addContactGroup ev other (group_body grp)) (\<lambda>created.
                    returnM (if truthy (g_resourceName created)
                             then added @ [(other, case g_resourceName created of Some r \<Rightarrow> r | None \<Rightarrow> [])]
                             else added)))
             (added @ [(u, rn)]) active))))
         added (to_add (infoGroup (the_replica w u))))) [] active"

definition add_to_other :: "env \<Rightarrow> string option list \<Rightarrow> person \<Rightarrow> string \<Rightarrow> person M" where
  "add_to_other ev groupTags contact other =
     readM (\<lambda>w. case body_for (infoGroup (the_replica w other)) groupTags contact of
        Inl err \<Rightarrow> throwM err
      | Inr body \<Rightarrow> add_contact ev other body)"

definition contacts_add_phase :: "env \<Rightarrow> string list \<Rightarrow> (string \<times> string) list M" where
  "contacts_add_phase ev active =
     foldM (\<lambda>added u. readM (\<lambda>w.
       foldM (\<lambda>added (rn, nm).
           bindM (newTagM ev) (\<lambda>t.
           bindM (updateTag ev u rn t) (\<lambda>_.
           bindM (get_contact ev u rn) (\<lambda>newcontact.
           readM (\<lambda>w1.
             let groupTags = map (rnToTagContactGroup (infoGroup (the_replica w1 u))) (groupRns_of newcontact) in
             foldM (\<lambda>added other.
                 if other = u then returnM added
                 else bindM (add_to_other ev groupTags (keep_myContacts newcontact) other) (\<lambda>created.
                      returnM (if truthy (p_resourceName created)
                               then added @ [(other, case p_resourceName created of Some r \<Rightarrow> r | None \<Rightarrow> [])]
                               else added)))
               (added @ [(u, rn)]) active)))))
         added (to_add (info (the_replica w u))))) [] active"

text \<open>Update.\<close>

definition groups_update_phase :: "env \<Rightarrow> jsdate \<Rightarrow> (string \<times> string) list \<Rightarrow> string list \<Rightarrow> unit M" where
  "groups_update_phase ev lastUpdate addedGroups active =
     readM (\<lambda>w.
       forM (collect_updates lastUpdate addedGroups (zip active (storesGroup w active))) (\<lambda>(t, val).
         case newest_of val of
           None \<Rightarrow> throwM TypeError
         | Some newest \<Rightarrow>
             bindM (getContactGroup ev (c_acc newest) (c_rn newest)) (\<lambda>grp.
             forM active (\<lambda>other.
               if other = c_acc newest then returnM ()
               else updateContactGroup ev other t grp))))"

definition update_other :: "env \<Rightarrow> string \<Rightarrow> string option list \<Rightarrow> person \<Rightarrow> string \<Rightarrow> unit M" where
  "update_other ev t groupTags contact other =
     readM (\<lambda>w. case body_for (infoGroup (the_replica w other)) groupTags contact of
        Inl err \<Rightarrow> throwM err
      | Inr body \<Rightarrow> update_contact ev other t body)"

definition contacts_update_phase :: "env \<Rightarrow> jsdate \<Rightarrow> (string \<times> string) list \<Rightarrow> string list \<Rightarrow> unit M" where
  "contacts_update_phase ev lastUpdate addedContacts active =
     readM (\<lambda>w.
       forM (collect_updates lastUpdate addedContacts (zip active (stores w active))) (\<lambda>(t, val).
         case newest_of val of
           None \<Rightarrow> throwM TypeError
         | Some newest \<Rightarrow>
             bindM (get_contact ev (c_acc newest) (c_rn newest)) (\<lambda>contact.
             readM (\<lambda>w1.
               let groupTags = map (rnToTagContactGroup (infoGroup (the_replica w1 (c_acc newest))))
                                 (groupRns_of contact) in
               forM active (\<lambda>other.
                 if other = c_acc newest then returnM ()
                 else update_other ev t groupTags (keep_myContacts contact) other)))))"

text \<open>The new accounts are seeded from the first active one.\<close>

definition seed_phase :: "env \<Rightarrow> string list \<Rightarrow> string list \<Rightarrow> unit M" where
  "seed_phase ev active newCon =
     (if newCon \<noteq> [] then
        (case active of
           [] \<Rightarrow> throwM TypeError
         | source # _ \<Rightarrow>
             bindM (getInfo ev source) (\<lambda>_.
             bindM (readM (\<lambda>w. forM (infoGroup (the_replica w source)) (\<lambda>(rn, v).
                      bindM (getContactGroup ev source rn) (\<lambda>grp.
                      forM newCon (\<lambda>other.
                        bindM (addContactGroup ev other (group_body grp)) (\<lambda>_. returnM ())))))) (\<lambda>_.
             bindM (forM newCon (getInfo ev)) (\<lambda>_.
             readM (\<lambda>w. forM (info (the_replica w source)) (\<lambda>(rn, v).
               bindM (get_contact ev source rn) (\<lambda>contact.
               readM (\<lambda>w1.
                 let groupTags = map (rnToTagContactGroup (infoGroup (the_replica w1 source)))
                                   (groupRns_of contact) in
                 forM newCon (\<lambda>other.
                   bindM (add_to_other ev groupTags (keep_myContacts contact) other) (\<lambda>_. returnM ()))))))))))
      else returnM ())"

definition sync_phase :: "env \<Rightarrow> JsonConfig \<Rightarrow> unit M" where
  "sync_phase ev cfg =
     readM (\<lambda>w.
       let newCon = map fst (filter (\<lambda>(email, acc). allNone (info acc)) (con w));
           active = map fst (filter (\<lambda>(email, acc). \<not> allNone (info acc)) (con w)) in
       if active = [] then throwM (ProcessExit 2)
       else
         bindM (groups_delete_phase ev active) (\<lambda>_.
         bindM (groups_add_phase ev active) (\<lambda>addedGroups.
         let lastUpdate = safeDate (getLastRunIso cfg) in
         bindM (groups_update_phase ev lastUpdate addedGroups active) (\<lambda>_.
         bindM (contacts_delete_phase ev active) (\<lambda>_.
         bindM (contacts_add_phase ev active) (\<lambda>addedContacts.
         bindM (contacts_update_phase ev lastUpdate addedContacts active) (\<lambda>_.
         seed_phase ev active newCon)))))))"

text \<open>Everything of \<open>runSync\<close> that comes before \<open>saveConfigLastRun\<close>.\<close>

definition run_body :: "env \<Rightarrow> SyncOptions \<Rightarrow> JsonConfig \<Rightarrow> unit M" where
  "run_body ev opts cfg =
     (if getAccounts cfg = [] then throwM (ProcessExit 2)
      else
        bindM (init_accounts ev (getAccounts cfg)) (\<lambda>_.
        bindM (backup_phase ev (getBackupDays cfg)) (\<lambda>_.
        if init opts then init_phase ev opts else sync_phase ev cfg)))"

definition world0 :: world where
  "world0 = \<lparr>calls = [], con = [], usedTags = [], rnd_pos = 0\<rparr>"

section \<open>The configuration file\<close>

text \<open>
  What \<open>config.json\<close> holds: text that \<open>JSON.parse\<close> rejects (an empty or cut file among
  others), a document without an array of accounts, or a configuration.
\<close>

datatype json_content = Unparsable | NoAccountsArray | Parsed JsonConfig

text \<open>
  The legacy \<open>config.ini\<close> as \<open>parseLegacyIni\<close> reads it: whether it has a section
  \<open>account-FIXME\<close>, the \<open>last\<close> of its section \<open>DEFAULT\<close> (\<open>None\<close> when absent or empty),
  \<open>Number(backupdays ?? 0)\<close> of that section (\<open>None\<close> when not finite), and its other
  sections with their \<open>user\<close>, \<open>keyfile\<close> and \<open>credfile\<close>, in order.
\<close>

record ini_data =
  ini_account_FIXME :: bool
  ini_last :: "jsdate option"
  ini_backupdays :: "int option"
  ini_accounts :: "JsonAccountConfig list"

text \<open>The configuration directory: its \<open>config.json\<close> and its \<open>config.ini\<close>, when they exist.\<close>

record cfg_dir =
  json_file :: "json_content option"
  ini_file :: "ini_data option"

definition migrateIniToJson :: "ini_data \<Rightarrow> JsonConfig" where
  "migrateIniToJson ini =
     \<lparr>cfg_last = Some (case ini_last ini of None \<Rightarrow> Time 63072000000 | Some d \<Rightarrow> d),
      backupdays = Some (case ini_backupdays ini of None \<Rightarrow> 0 | Some n \<Rightarrow> n),
      accounts = filter (\<lambda>a. user a \<noteq> None \<and> keyfile a \<noteq> None \<and> credfile a \<noteq> None) (ini_accounts ini)\<rparr>"

text \<open>\<open>defaultJsonConfig\<close>; the two paths are given without the directory.\<close>

definition defaultJsonConfig :: JsonConfig where
  "defaultJsonConfig =
     \<lparr>cfg_last = Some (Time 63072000000), backupdays = Some 0,
      accounts = [\<lparr>user = Some ''FIXME@gmail.com'', keyfile = Some ''FIXME_keyfile.json'',
                   credfile = Some ''FIXME_token''\<rparr>]\<rparr>"

text \<open>
  \<open>loadConfigOrCreateDefault\<close> on the directory \<open>dir\<close> as the run finds it. Every file
  operation is a request to the local file system and may fail.
\<close>

definition loadConfigOrCreateDefault :: "env \<Rightarrow> cfg_dir \<Rightarrow> JsonConfig M" where
  "loadConfigOrCreateDefault ev dir =
     bindM (api_plain (srv_unit ev) MkdirConfigDir) (\<lambda>_.
       case json_file dir of
         Some content \<Rightarrow>
           bindM (api_plain (srv_unit ev) ReadConfigJson) (\<lambda>_.
             case content of
               Unparsable \<Rightarrow> throwM SyntaxError
             | NoAccountsArray \<Rightarrow> throwM InvalidConfig
             | Parsed data \<Rightarrow> returnM data)
       | None \<Rightarrow>
           (case ini_file dir of
              Some ini \<Rightarrow>
                bindM (api_plain (srv_unit ev) ReadConfigIni) (\<lambda>_.
                  if ini_account_FIXME ini then throwM (ProcessExit 2)
                  else bindM (api_plain (srv_unit ev) (WriteConfig (migrateIniToJson ini))) (\<lambda>_.
                       returnM (migrateIniToJson ini)))
            | None \<Rightarrow>
                bindM (api_plain (srv_unit ev) (WriteConfig defaultJsonConfig)) (\<lambda>_.
                throwM (ProcessExit 1))))"

definition nowUtcPlus5SecondsIso :: "env \<Rightarrow> world \<Rightarrow> jsdate" where
  "nowUtcPlus5SecondsIso ev w = Time (clock ev (calls w) + 5000)"

text \<open>The configuration that \<open>saveConfigLastRun\<close> writes in the state \<open>w\<close>.\<close>

definition saved_config :: "env \<Rightarrow> JsonConfig \<Rightarrow> world \<Rightarrow> JsonConfig" where
  "saved_config ev cfg w =
     cfg\<lparr>cfg_last := Some (nowUtcPlus5SecondsIso ev w),
         backupdays := (case backupdays cfg of None \<Rightarrow> Some 0 | Some n \<Rightarrow> Some n)\<rparr>"

definition saveConfigLastRun :: "env \<Rightarrow> JsonConfig \<Rightarrow> unit M" where
  "saveConfigLastRun ev cfg =
     readM (\<lambda>w. api_plain (srv_unit ev) (WriteConfig (saved_config ev cfg w)))"

text \<open>
  The content of \<open>config.json\<close> follows from the log: \<open>config_json ev h l f\<close> is the content
  after the requests \<open>l\<close>, made after the log \<open>h\<close>, when it was \<open>f\<close> before them. A write
  that succeeds leaves the configuration written; a write that fails has already cut the
  file, so it leaves text that \<open>JSON.parse\<close> rejects.
\<close>

fun config_json :: "env \<Rightarrow> call list \<Rightarrow> call list \<Rightarrow> json_content option \<Rightarrow> json_content option" where
  "config_json ev h [] f = f"
| "config_json ev h (c # cs) f =
     config_json ev (h @ [c]) cs
       (case c of
          WriteConfig data \<Rightarrow>
            (case srv_unit ev h c of
               Settles t (Resolved x) \<Rightarrow> Some (Parsed data)
             | _ \<Rightarrow> Some Unparsable)
        | _ \<Rightarrow> f)"

text \<open>Everything of \<open>runSync\<close> that comes before \<open>saveConfigLastRun\<close>, from the loading on.\<close>

definition before_save :: "env \<Rightarrow> SyncOptions \<Rightarrow> cfg_dir \<Rightarrow> JsonConfig M" where
  "before_save ev opts dir =
     bindM (loadConfigOrCreateDefault ev dir) (\<lambda>cfg.
     bindM (run_body ev opts cfg) (\<lambda>_. returnM cfg))"

text \<open>
  \<open>runSync\<close> in the configuration directory \<open>dir\<close>: the outcome and the final state. The
  content of \<open>config.json\<close> after the run is \<open>config_json ev [] (calls w) (json_file dir)\<close>.
\<close>

definition runSync :: "env \<Rightarrow> SyncOptions \<Rightarrow> cfg_dir \<Rightarrow> (unit attempt \<times> world) option" where
  "runSync ev opts dir =
     bindM (before_save ev opts dir) (\<lambda>cfg. saveConfigLastRun ev cfg) world0"

text \<open>The writes of \<open>config.json\<close> that the loading makes.\<close>

definition load_writes :: "cfg_dir \<Rightarrow> call list" where
  "load_writes dir =
     (case json_file dir of
        Some content \<Rightarrow> []
      | None \<Rightarrow> (case ini_file dir of
                   Some ini \<Rightarrow> [WriteConfig (migrateIniToJson ini)]
                 | None \<Rightarrow> [WriteConfig defaultJsonConfig]))"

section \<open>Properties of computations\<close>

text \<open>
  \<open>preserves I m\<close>: the computation \<open>m\<close>, started in a state where \<open>I\<close> holds, ends in such a state
  whenever it comes back.
\<close>

definition preserves :: "(world \<Rightarrow> bool) \<Rightarrow> 'a M \<Rightarrow> bool" where
  "preserves I m = (\<forall>w r w'. I w \<longrightarrow> m w = Some (r, w') \<longrightarrow> I w')"

text \<open>\<open>closed_under P J\<close>: a property \<open>J\<close> of logs survives every new entry that satisfies \<open>P\<close>.\<close>

definition closed_under :: "(call \<Rightarrow> bool) \<Rightarrow> (call list \<Rightarrow> bool) \<Rightarrow> bool" where
  "closed_under P J = (\<forall>c l. P c \<longrightarrow> J l \<longrightarrow> J (l @ [c]))"

text \<open>The requests that change a replica, and the one that changes the configuration file.\<close>

fun is_write :: "call \<Rightarrow> bool" where
  "is_write (CreateContact u b) = True"
| "is_write (UpdateContact u rn f b) = True"
| "is_write (DeleteContact u rn) = True"
| "is_write (GroupsCreate u b) = True"
| "is_write (GroupsUpdate u rn b f) = True"
| "is_write (GroupsDelete u rn) = True"
| "is_write _ = False"

fun is_cfg_write :: "call \<Rightarrow> bool" where
  "is_cfg_write (WriteConfig d) = True"
| "is_cfg_write _ = False"

text \<open>
  The request \<open>c\<close> is in the log and the remote side has answered it in time, without error.
\<close>

definition answered :: "env \<Rightarrow> call list \<Rightarrow> call \<Rightarrow> bool" where
  "answered ev l c =
     list_ex (\<lambda>i. l ! i = c \<and>
        (case srv_unit ev (take i l) c of
           Settles t (Resolved x) \<Rightarrow> int t < max 1 (apiTimeoutMs ev)
         | _ \<Rightarrow> False)) [0 ..< length l]"

text \<open>
  \<open>c\<close> is the request that deletes, in an active account \<open>u\<close>, the contact that the store of
  \<open>u\<close> in the state \<open>w\<close> holds under one of the tags \<open>toDelete\<close>.
\<close>

definition propagated_delete :: "world \<Rightarrow> string list \<Rightarrow> string list \<Rightarrow> call \<Rightarrow> bool" where
  "propagated_delete w active toDelete c =
     (case c of
        DeleteContact u rn \<Rightarrow>
          u \<in> set active \<and> list_ex (\<lambda>t. tagToRn (info (the_replica w u)) t = Inr (Some rn)) toDelete
      | _ \<Rightarrow> False)"

text \<open>
  The delete request for the contact that the store of \<open>u\<close> in the state \<open>w\<close> holds under
  the tag \<open>t\<close>, if there is one, has been answered in the log of \<open>v\<close>.
\<close>

definition del_ok :: "env \<Rightarrow> world \<Rightarrow> string \<Rightarrow> string \<Rightarrow> world \<Rightarrow> bool" where
  "del_ok ev w u t v =
     (\<forall>rn. tagToRn (info (the_replica w u)) t = Inr (Some rn) \<and> rn \<noteq> [] \<longrightarrow>
        answered ev (calls v) (DeleteContact u rn))"

section \<open>An example: two accounts and a remote side that answers every request\<close>

definition ex_contact :: "string \<Rightarrow> string \<Rightarrow> person" where
  "ex_contact rn nm = empty_person\<lparr>p_resourceName := Some rn, p_etag := Some ''e'', p_names := Some [Some nm]\<rparr>"

definition ex_people :: "string \<Rightarrow> person list" where
  "ex_people u =
     (if u = ''a'' then [ex_contact ''people/a1'' ''Bob'', ex_contact ''people/a2'' ''bob'']
      else if u = ''b'' then [ex_contact ''people/b1'' ''BOB'']
      else if u = ''d'' then [ex_contact ''people/d1'' ''Dan'', ex_contact ''people/d2'' ''Dan'']
      else if u = ''g'' then [ex_contact ''people/g1'' ''Ann'']
      else [])"

definition ex_group :: "string \<Rightarrow> string \<Rightarrow> group" where
  "ex_group rn nm = empty_group\<lparr>g_resourceName := Some rn, g_etag := Some ''e'', g_name := Some nm,
     g_groupType := Some ''USER_CONTACT_GROUP''\<rparr>"

definition ex_groups :: "string \<Rightarrow> group list" where
  "ex_groups u =
     (if u = ''g'' then [ex_group ''contactGroups/g1'' ''Ann'', ex_group ''contactGroups/g2'' ''Ann'']
      else [])"

definition ex_env :: env where
  "ex_env = \<lparr>
     srv_persons = (\<lambda>h c. case c of ConnectionsList u f \<Rightarrow> Settles 10 (Resolved (ex_people u)) | _ \<Rightarrow> Pending),
     srv_groups = (\<lambda>h c. case c of GroupsList u \<Rightarrow> Settles 10 (Resolved (ex_groups u)) | _ \<Rightarrow> Pending),
     srv_person = (\<lambda>h c. case c of
         PeopleGet u rn f \<Rightarrow> Settles 10 (Resolved (ex_contact rn ''Bob''))
       | CreateContact u b \<Rightarrow> Settles 10 (Resolved (b\<lparr>p_resourceName := Some ''people/new''\<rparr>))
       | _ \<Rightarrow> Pending),
     srv_group = (\<lambda>h c. Settles 10 (Resolved empty_group)),
     srv_unit = (\<lambda>h c. Settles 10 (Resolved ())),
     random_source = (\<lambda>i. 0),
     clock = (\<lambda>h. 1000),
     apiTimeoutMs = 60000\<rparr>"

definition ex_cfg :: "string list \<Rightarrow> JsonConfig" where
  "ex_cfg us = \<lparr>cfg_last = Some (Time 500), backupdays = Some 0,
     accounts = map (\<lambda>u. \<lparr>user = Some u, keyfile = Some ''k'', credfile = Some ''c''\<rparr>) us\<rparr>"

definition ex_dir :: "string list \<Rightarrow> cfg_dir" where
  "ex_dir us = \<lparr>json_file = Some (Parsed (ex_cfg us)), ini_file = None\<rparr>"

definition ex_ini :: "string list \<Rightarrow> ini_data" where
  "ex_ini us = \<lparr>ini_account_FIXME = False, ini_last = Some (Time 500), ini_backupdays = Some 0,
     ini_accounts = map (\<lambda>u. \<lparr>user = Some u, keyfile = Some ''k'', credfile = Some ''c''\<rparr>) us\<rparr>"

definition ex_info :: "string option \<Rightarrow> int \<Rightarrow> string \<Rightarrow> ContactInfo" where
  "ex_info t upd nm = \<lparr>etag = ''e'', tag = t, updated = Time upd, name = nm\<rparr>"

definition ex_store :: info where
  "ex_store = [(''people/c1'', ex_info (Some ''t1'') 0 ''Ann''),
               (''people/c2'', ex_info (Some ''t2'') 0 ''Bea''),
               (''people/c3'', ex_info (Some ''t2'') 0 ''Cid'')]"

definition ex_world :: world where
  "ex_world = world0\<lparr>con := [(''a'', \<lparr>info = ex_store, infoGroup = ex_store\<rparr>)]\<rparr>"

definition ex_world2 :: world where
  "ex_world2 = world0\<lparr>con :=
     [(''a'', \<lparr>info = [(''people/c1'', ex_info (Some ''t1'') 900 ''Ann''),
                       (''people/c2'', ex_info (Some ''t2'') 100 ''Bea'')],
              infoGroup = [(''contactGroups/g1'', ex_info (Some ''gt1'') 0 ''Friends''),
                           (''contactGroups/g2'', ex_info (Some ''gt2'') 0 ''Work'')]\<rparr>),
      (''b'', \<lparr>info = [(''people/k1'', ex_info (Some ''t1'') 700 ''Ann'')],
              infoGroup = [(''contactGroups/h1'', ex_info (Some ''gt1'') 0 ''Friends'')]\<rparr>)]\<rparr>"

section \<open>Objects and sets\<close>

lemma keys_obj_set: "fst ` set (obj_set kvs k v) = insert k (fst ` set kvs)"
  by (induction kvs k v rule: obj_set.induct) auto

section \<open>Rules for properties of computations\<close>

named_theorems pres_intros

lemma pres_returnM [pres_intros]: "preserves I (returnM x)"
  by (simp add: preserves_def returnM_def)

lemma pres_throwM [pres_intros]: "preserves I (throwM e)"
  by (simp add: preserves_def throwM_def)

lemma bindM_Some:
  "bindM m f w = Some (r, w') \<Longrightarrow>
     (\<exists>e. m w = Some (Rejected e, w') \<and> r = Rejected e) \<or>
     (\<exists>x w1. m w = Some (Resolved x, w1) \<and> f x w1 = Some (r, w'))"
  unfolding bindM_def by (auto split: option.splits prod.splits attempt.splits)

lemma pres_bindM [pres_intros]:
  assumes "preserves I m" and "\<And>x. preserves I (f x)"
  shows "preserves I (bindM m f)"
  unfolding preserves_def
proof (intro allI impI)
  fix w r w' assume i: "I w" and b: "bindM m f w = Some (r, w')"
  from bindM_Some [OF b] show "I w'"
  proof
    assume "\<exists>e. m w = Some (Rejected e, w') \<and> r = Rejected e"
    then show ?thesis using assms(1) i unfolding preserves_def by blast
  next
    assume "\<exists>x w1. m w = Some (Resolved x, w1) \<and> f x w1 = Some (r, w')"
    then obtain x w1 where m: "m w = Some (Resolved x, w1)" and f: "f x w1 = Some (r, w')" by blast
    from assms(1) i m have "I w1" unfolding preserves_def by blast
    with assms(2) [of x] f show ?thesis unfolding preserves_def by blast
  qed
qed

lemma pres_forM [pres_intros]:
  assumes "\<And>x. x \<in> set xs \<Longrightarrow> preserves I (f x)"
  shows "preserves I (forM xs f)"
  using assms
proof (induction xs)
  case Nil
  show ?case by (simp add: pres_returnM)
next
  case (Cons x xs)
  have 1: "preserves I (f x)" using Cons.prems by simp
  have 2: "preserves I (forM xs f)" using Cons by simp
  show ?case unfolding forM.simps using 1 2 by (rule pres_bindM)
qed

lemma pres_foldM [pres_intros]:
  assumes "\<And>s x. x \<in> set xs \<Longrightarrow> preserves I (f s x)"
  shows "preserves I (foldM f s xs)"
  using assms
proof (induction xs arbitrary: s)
  case Nil
  show ?case by (simp add: pres_returnM)
next
  case (Cons x xs)
  have 1: "preserves I (f s x)" using Cons.prems by simp
  have 2: "\<And>s'. preserves I (foldM f s' xs)" using Cons by simp
  show ?case unfolding foldM.simps using 1 2 by (rule pres_bindM)
qed

lemma pres_readM [pres_intros]:
  assumes "\<And>v. I v \<Longrightarrow> preserves I (g v)"
  shows "preserves I (readM g)"
  using assms unfolding preserves_def readM_def by blast

lemma pres_modifyM:
  assumes "\<And>w. I w \<Longrightarrow> I (g w)"
  shows "preserves I (modifyM g)"
  using assms unfolding preserves_def modifyM_def by auto

lemma pres_api_timed:
  assumes "\<And>w. I w \<Longrightarrow> I (logged c w)"
  shows "preserves I (api_timed ev srv c msg)"
  using assms unfolding preserves_def api_timed_def by auto

lemma pres_api_plain:
  assumes "\<And>w. I w \<Longrightarrow> I (logged c w)"
  shows "preserves I (api_plain srv c)"
  using assms unfolding preserves_def api_plain_def by (auto split: promise.splits)

lemma pres_if [pres_intros]:
  "(c \<Longrightarrow> preserves I a) \<Longrightarrow> (\<not> c \<Longrightarrow> preserves I b) \<Longrightarrow> preserves I (if c then a else b)"
  by simp

lemma pres_case_option [pres_intros]:
  "(x = None \<Longrightarrow> preserves I a) \<Longrightarrow> (\<And>y. x = Some y \<Longrightarrow> preserves I (b y)) \<Longrightarrow>
   preserves I (case x of None \<Rightarrow> a | Some y \<Rightarrow> b y)"
  by (cases x) simp_all

lemma pres_case_sum [pres_intros]:
  "(\<And>y. x = Inl y \<Longrightarrow> preserves I (a y)) \<Longrightarrow> (\<And>y. x = Inr y \<Longrightarrow> preserves I (b y)) \<Longrightarrow>
   preserves I (case x of Inl y \<Rightarrow> a y | Inr y \<Rightarrow> b y)"
  by (cases x) simp_all

lemma pres_case_prod [pres_intros]:
  "(\<And>a b. x = (a, b) \<Longrightarrow> preserves I (f a b)) \<Longrightarrow> preserves I (case x of (a, b) \<Rightarrow> f a b)"
  by (cases x) simp

lemma pres_case_list [pres_intros]:
  "(x = [] \<Longrightarrow> preserves I a) \<Longrightarrow> (\<And>y ys. x = y # ys \<Longrightarrow> preserves I (b y ys)) \<Longrightarrow>
   preserves I (case x of [] \<Rightarrow> a | y # ys \<Rightarrow> b y ys)"
  by (cases x) simp_all

lemma pres_Let [pres_intros]:
  "preserves I (f x) \<Longrightarrow> preserves I (Let x f)"
  by simp

lemma withBackoffM_loop_cases:
  assumes "withBackoffM_loop fn d w = Some y"
  shows "(\<exists>x w'. fn w = Some (Resolved x, w') \<and> y = (Resolved x, w')) \<or>
         (\<exists>e w'. fn w = Some (Rejected e, w') \<and> \<not> retryable (err_code e) \<and> y = (Rejected e, w')) \<or>
         (\<exists>e w'. fn w = Some (Rejected e, w') \<and> retryable (err_code e) \<and>
            withBackoffM_loop fn (min (d * 2) 30000) (logged (Sleep d) w') = Some y)"
  using assms
  by (subst (asm) withBackoffM_loop.simps) (auto split: option.splits prod.splits attempt.splits if_splits)

lemma pres_withBackoffM_loop:
  assumes s: "\<And>d w. I w \<Longrightarrow> I (logged (Sleep d) w)"
  shows "withBackoffM_loop fn d w = Some y \<Longrightarrow> preserves I fn \<Longrightarrow> I w \<Longrightarrow> I (snd y)"
proof (induction fn d w y rule: withBackoffM_loop.raw_induct [rotated 1, consumes 1])
  case (1 loop fn d w y)
  note ih = 1(1) and eq = 1(2) and f = 1(3) and i = 1(4)
  show ?case
  proof (cases "fn w")
    case None
    with eq show ?thesis by simp
  next
    case (Some p)
    obtain r w' where p: "p = (r, w')" by (cases p)
    have iw': "I w'" using f i Some p unfolding preserves_def by blast
    show ?thesis
    proof (cases r)
      case (Resolved x)
      with eq Some p iw' show ?thesis by auto
    next
      case (Rejected e)
      show ?thesis
      proof (cases "retryable (err_code e)")
        case False
        with eq Some p iw' Rejected show ?thesis by auto
      next
        case True
        with eq Some p Rejected
        have "loop fn (min (d * 2) 30000) (logged (Sleep d) w') = Some y" by simp
        then show ?thesis using f s [OF iw'] by (rule ih)
      qed
    qed
  qed
qed

lemma pres_withBackoffM [pres_intros]:
  assumes "preserves I fn" and "\<And>d w. I w \<Longrightarrow> I (logged (Sleep d) w)"
  shows "preserves I (withBackoffM fn)"
  unfolding preserves_def withBackoffM_def
  using pres_withBackoffM_loop [of I fn 500, OF assms(2) _ assms(1)] by fastforce

lemma pres_catchM [pres_intros]:
  assumes "preserves I m" and "\<And>e. preserves I (h e)"
  shows "preserves I (catchM m h)"
  unfolding preserves_def
proof (intro allI impI)
  fix w r w' assume i: "I w" and c: "catchM m h w = Some (r, w')"
  show "I w'"
  proof (cases "m w")
    case None
    with c show ?thesis by (simp add: catchM_def)
  next
    case (Some p)
    obtain r1 w1 where p: "p = (r1, w1)" by (cases p)
    have i1: "I w1" using assms(1) i Some p unfolding preserves_def by blast
    show ?thesis
    proof (cases r1)
      case (Resolved x)
      with c Some p i1 show ?thesis by (simp add: catchM_def)
    next
      case (Rejected e)
      show ?thesis
      proof (cases "\<exists>n. e = ProcessExit n")
        case True
        with c Some p i1 Rejected show ?thesis by (auto simp: catchM_def)
      next
        case False
        with c Some p Rejected have "h e w1 = Some (r, w')"
          by (cases e) (auto simp: catchM_def)
        with assms(2) [of e] i1 show ?thesis unfolding preserves_def by blast
      qed
    qed
  qed
qed

lemma pres_newTagM:
  assumes "\<And>w u p. I w \<Longrightarrow> I (w\<lparr>usedTags := u, rnd_pos := p\<rparr>)"
  shows "preserves I (newTagM ev)"
  using assms unfolding preserves_def newTagM_def
  by (auto split: option.splits)

lemma pres_wait_loop:
  assumes s: "\<And>d w. I w \<Longrightarrow> I (logged (Sleep d) w)"
  shows "getContactGroupWaitSyncTag_loop ev u rn d w = Some y \<Longrightarrow>
    preserves I (getContactGroup ev u rn) \<Longrightarrow> I w \<Longrightarrow> I (snd y)"
proof (induction ev u rn d w y rule: getContactGroupWaitSyncTag_loop.raw_induct [rotated 1, consumes 1])
  case (1 loop ev u rn d w y)
  note ih = 1(1) and eq = 1(2) and g = 1(3) and i = 1(4)
  show ?case
  proof (cases "getContactGroup ev u rn w")
    case None
    with eq show ?thesis by simp
  next
    case (Some p)
    obtain r w' where p: "p = (r, w')" by (cases p)
    have iw': "I w'" using g i Some p unfolding preserves_def by blast
    show ?thesis
    proof (cases r)
      case (Rejected e)
      with eq Some p iw' show ?thesis by auto
    next
      case (Resolved cont)
      show ?thesis
      proof (cases "has_sync_tag cont")
        case True
        with eq Some p iw' Resolved show ?thesis by auto
      next
        case False
        with eq Some p Resolved
        have "loop ev u rn (min (d * 2) 30000) (logged (Sleep d) w') = Some y" by simp
        then show ?thesis using g s [OF iw'] by (rule ih)
      qed
    qed
  qed
qed

lemma pres_getContactGroupWaitSyncTag:
  assumes "preserves I (getContactGroup ev u rn)" and "\<And>d w. I w \<Longrightarrow> I (logged (Sleep d) w)"
  shows "preserves I (getContactGroupWaitSyncTag ev u rn)"
  unfolding preserves_def getContactGroupWaitSyncTag_def
  using pres_wait_loop [of I ev u rn 500, OF assms(2) _ assms(1)] by fastforce

lemma closed_underD: "closed_under P J \<Longrightarrow> P c \<Longrightarrow> J (calls w) \<Longrightarrow> J (calls (logged c w))"
  by (simp add: closed_under_def logged_def)

lemma closed_under_mono: "closed_under P J \<Longrightarrow> (\<And>c. Q c \<Longrightarrow> P c) \<Longrightarrow> closed_under Q J"
  by (simp add: closed_under_def)

lemmas log_pres_intros =
  pres_intros pres_api_timed pres_api_plain pres_modifyM pres_newTagM pres_getContactGroupWaitSyncTag

lemmas log_pres_simps =
  closed_under_def logged_def set_info_def set_infoGroup_def set_tag_def patch_infoGroup_def Let_def

lemma pres_getInfo_reads:
  assumes "closed_under (\<lambda>c. \<not> is_write c \<and> \<not> is_cfg_write c) J"
  shows "preserves (\<lambda>w. J (calls w)) (getInfo ev u)"
  unfolding getInfo_def getAllContacts_def getContactGroups_def
  by (intro log_pres_intros) (use assms in \<open>auto simp: log_pres_simps\<close>)

lemma pres_init_accounts_reads:
  assumes "closed_under (\<lambda>c. \<not> is_write c \<and> \<not> is_cfg_write c) J"
  shows "preserves (\<lambda>w. J (calls w)) (init_accounts ev us)"
  unfolding init_accounts_def init_account_def
  by (intro log_pres_intros pres_getInfo_reads assms) (use assms in \<open>auto simp: log_pres_simps\<close>)

lemma pres_backup_phase_reads:
  assumes "closed_under (\<lambda>c. \<not> is_write c \<and> \<not> is_cfg_write c) J"
  shows "preserves (\<lambda>w. J (calls w)) (backup_phase ev n)"
  unfolding backup_phase_def getAllContacts_def getContactGroups_def
  by (intro log_pres_intros) (use assms in \<open>auto simp: log_pres_simps\<close>)


lemma closed_reads:
  "closed_under (\<lambda>c. \<not> is_cfg_write c) J \<Longrightarrow> closed_under (\<lambda>c. \<not> is_write c \<and> \<not> is_cfg_write c) J"
  by (simp add: closed_under_def)

lemma pres_getInfo:
  assumes "closed_under (\<lambda>c. \<not> is_cfg_write c) J"
  shows "preserves (\<lambda>w. J (calls w)) (getInfo ev u)"
  by (rule pres_getInfo_reads [OF closed_reads [OF assms]])

lemma pres_contact_methods:
  assumes "closed_under (\<lambda>c. \<not> is_cfg_write c) J"
  shows "preserves (\<lambda>w. J (calls w)) (delete_contact ev u t)"
    and "preserves (\<lambda>w. J (calls w)) (updateTag ev u rn t)"
    and "preserves (\<lambda>w. J (calls w)) (add_contact ev u body)"
    and "preserves (\<lambda>w. J (calls w)) (update_contact ev u t body)"
    and "preserves (\<lambda>w. J (calls w)) (get_contact ev u rn)"
  unfolding delete_contact_def updateTag_def add_contact_def update_contact_def get_contact_def
  by (intro log_pres_intros; use assms in \<open>auto simp: log_pres_simps\<close>)+

lemma pres_getContactGroup:
  assumes "closed_under (\<lambda>c. \<not> is_cfg_write c) J"
  shows "preserves (\<lambda>w. J (calls w)) (getContactGroup ev u rn)"
  unfolding getContactGroup_def
  by (intro log_pres_intros; use assms in \<open>auto simp: log_pres_simps\<close>)

lemma pres_group_methods:
  assumes "closed_under (\<lambda>c. \<not> is_cfg_write c) J"
  shows "preserves (\<lambda>w. J (calls w)) (addContactGroup ev u gbody)"
    and "preserves (\<lambda>w. J (calls w)) (getContactGroupWaitSyncTag ev u rn)"
    and "preserves (\<lambda>w. J (calls w)) (updateContactGroupTag ev u rn t)"
    and "preserves (\<lambda>w. J (calls w)) (updateContactGroup ev u t gbody)"
    and "preserves (\<lambda>w. J (calls w)) (deleteContactGroup ev u t)"
  unfolding addContactGroup_def updateContactGroupTag_def updateContactGroup_def deleteContactGroup_def
  by (intro log_pres_intros pres_getContactGroup assms; use assms in \<open>auto simp: log_pres_simps split: option.splits\<close>)+


lemmas method_pres = pres_getInfo pres_contact_methods pres_getContactGroup pres_group_methods

lemma pres_init_phase:
  assumes "closed_under (\<lambda>c. \<not> is_cfg_write c) J"
  shows "preserves (\<lambda>w. J (calls w)) (init_phase ev opts)"
  unfolding init_phase_def init_entry_def
  by (intro log_pres_intros method_pres assms; use assms in \<open>auto simp: log_pres_simps\<close>)

lemma pres_delete_phases:
  assumes "closed_under (\<lambda>c. \<not> is_cfg_write c) J"
  shows "preserves (\<lambda>w. J (calls w)) (groups_delete_phase ev active)"
    and "preserves (\<lambda>w. J (calls w)) (contacts_delete_phase ev active)"
  unfolding groups_delete_phase_def contacts_delete_phase_def
  by (intro log_pres_intros method_pres assms)+

lemma pres_add_to_other:
  assumes "closed_under (\<lambda>c. \<not> is_cfg_write c) J"
  shows "preserves (\<lambda>w. J (calls w)) (add_to_other ev groupTags contact other)"
    and "preserves (\<lambda>w. J (calls w)) (update_other ev t groupTags contact other)"
  unfolding add_to_other_def update_other_def
  by (intro log_pres_intros method_pres assms)+

lemma pres_add_phases:
  assumes "closed_under (\<lambda>c. \<not> is_cfg_write c) J"
  shows "preserves (\<lambda>w. J (calls w)) (groups_add_phase ev active)"
    and "preserves (\<lambda>w. J (calls w)) (contacts_add_phase ev active)"
  unfolding groups_add_phase_def contacts_add_phase_def
  by (intro log_pres_intros method_pres pres_add_to_other assms; use assms in \<open>auto simp: log_pres_simps\<close>)+

lemma pres_update_phases:
  assumes "closed_under (\<lambda>c. \<not> is_cfg_write c) J"
  shows "preserves (\<lambda>w. J (calls w)) (groups_update_phase ev lastUpdate added active)"
    and "preserves (\<lambda>w. J (calls w)) (contacts_update_phase ev lastUpdate added active)"
  unfolding groups_update_phase_def contacts_update_phase_def
  by (intro log_pres_intros method_pres pres_add_to_other assms)+

lemma pres_seed_phase:
  assumes "closed_under (\<lambda>c. \<not> is_cfg_write c) J"
  shows "preserves (\<lambda>w. J (calls w)) (seed_phase ev active newCon)"
  unfolding seed_phase_def
  by (intro log_pres_intros method_pres pres_add_to_other assms)

lemma pres_sync_phase:
  assumes "closed_under (\<lambda>c. \<not> is_cfg_write c) J"
  shows "preserves (\<lambda>w. J (calls w)) (sync_phase ev cfg)"
  unfolding sync_phase_def
  by (intro log_pres_intros pres_delete_phases pres_add_phases pres_update_phases pres_seed_phase assms)

lemma pres_run_body:
  assumes "closed_under (\<lambda>c. \<not> is_cfg_write c) J"
  shows "preserves (\<lambda>w. J (calls w)) (run_body ev opts cfg)"
  unfolding run_body_def
  by (intro log_pres_intros pres_init_accounts_reads pres_backup_phase_reads pres_init_phase pres_sync_phase
      closed_reads assms)

section \<open>Evaluating a run\<close>

lemma withBackoffM_Resolved:
  "fn w = Some (Resolved x, w') \<Longrightarrow> withBackoffM fn w = Some (Resolved x, w')"
  unfolding withBackoffM_def by (subst withBackoffM_loop.simps) simp

lemma withBackoffM_Rejected:
  "fn w = Some (Rejected e, w') \<Longrightarrow> \<not> retryable (err_code e) \<Longrightarrow> withBackoffM fn w = Some (Rejected e, w')"
  unfolding withBackoffM_def by (subst withBackoffM_loop.simps) simp

lemma ex_groups_simps [simp]:
  "ex_groups ''a'' = []" "ex_groups ''b'' = []" "ex_groups ''c'' = []" "ex_groups ''d'' = []"
  by (simp_all add: ex_groups_def)

lemmas run_defs = run_body_def init_accounts_def init_account_def getInfo_def
  getAllContacts_def getContactGroups_def backup_phase_def
  bindM_def returnM_def throwM_def modifyM_def readM_def api_timed_def api_plain_def
  withTimeout_def logged_def the_replica_def set_info_def set_infoGroup_def
  getAccounts_def getBackupDays_def world0_def empty_replica_def Let_def

section \<open>The accounts of a run and the check of the init mode\<close>

lemma duplicates_loop_Nil:
  "duplicates_loop xs seen dups = [] \<longleftrightarrow> dups = [] \<and> distinct xs \<and> set xs \<inter> set seen = {}"
proof (induction xs seen dups rule: duplicates_loop.induct)
  case (1 seen dups)
  show ?case by simp
next
  case (2 item items seen dups)
  show ?case
  proof (cases "item \<in> set seen")
    case True
    have "set_add dups item \<noteq> []" by (auto simp: set_add_def)
    with True 2(1) show ?thesis by auto
  next
    case False
    have "set (set_add seen item) = insert item (set seen)" by (auto simp: set_add_def)
    with False 2(2) show ?thesis by auto
  qed
qed

lemma duplicates_Nil: "duplicates xs = [] \<longleftrightarrow> distinct xs"
  by (simp add: duplicates_def duplicates_loop_Nil)

lemma forM_guard:
  assumes "\<exists>u \<in> set us. bad w u"
  shows "forM us (\<lambda>u. readM (\<lambda>v. if bad v u then throwM e else returnM ())) w = Some (Rejected e, w)"
  using assms
proof (induction us)
  case Nil
  then show ?case by simp
next
  case (Cons u us)
  show ?case
  proof (cases "bad w u")
    case True
    then show ?thesis by (simp add: bindM_def readM_def throwM_def)
  next
    case False
    with Cons.prems have "\<exists>u \<in> set us. bad w u" by simp
    then have "forM us (\<lambda>u. readM (\<lambda>v. if bad v u then throwM e else returnM ())) w = Some (Rejected e, w)"
      by (rule Cons.IH)
    with False show ?thesis by (simp add: bindM_def readM_def returnM_def)
  qed
qed

lemma init_phase_guard:
  assumes "\<exists>u \<in> set (map fst (con w)). \<not> distinct (map (\<lambda>(rn, i). name i) (info (the_replica w u)))"
  shows "init_phase ev opts w = Some (Rejected (ProcessExit 1), w)"
proof -
  let ?bad = "\<lambda>v u. duplicates (map (\<lambda>(rn, i). name i) (info (the_replica v u))) \<noteq> []"
  have "\<exists>u \<in> set (map fst (con w)). ?bad w u" using assms by (simp add: duplicates_Nil)
  then have "forM (map fst (con w)) (\<lambda>u. readM (\<lambda>v. if ?bad v u then throwM (ProcessExit 1) else returnM ())) w
      = Some (Rejected (ProcessExit 1), w)"
    by (rule forM_guard)
  then show ?thesis by (simp add: init_phase_def readM_def Let_def bindM_def)
qed

lemma keys_set_info [simp]:
  "map fst (con (set_info u i w)) = map fst (con w)"
  "map fst (con (set_infoGroup u i w)) = map fst (con w)"
  by (simp_all add: set_info_def set_infoGroup_def comp_def case_prod_unfold)

lemma con_logged [simp]: "con (logged c w) = con w"
  by (simp add: logged_def)

lemma distinct_keys_obj_set:
  "distinct (map fst kvs) \<Longrightarrow> distinct (map fst (obj_set kvs k v))"
  by (induction kvs k v rule: obj_set.induct) (auto simp: keys_obj_set)

lemma pres_keys_getInfo:
  "preserves (\<lambda>w. distinct (map fst (con w))) (getInfo ev u)"
  unfolding getInfo_def getAllContacts_def getContactGroups_def
  by (intro log_pres_intros) simp_all

lemma pres_keys_init_accounts:
  "preserves (\<lambda>w. distinct (map fst (con w))) (init_accounts ev us)"
  unfolding init_accounts_def init_account_def
  by (intro log_pres_intros pres_keys_getInfo) (simp_all add: distinct_keys_obj_set)

lemma pres_con_backup_phase:
  "preserves (\<lambda>w. P (con w)) (backup_phase ev n)"
  unfolding backup_phase_def getAllContacts_def getContactGroups_def
  by (intro log_pres_intros) simp_all

lemma bindM_assoc_run:
  "bindM m (\<lambda>_. bindM k f) w0 =
     (case bindM m (\<lambda>_. k) w0 of
        None \<Rightarrow> None
      | Some (Rejected e, w) \<Rightarrow> Some (Rejected e, w)
      | Some (Resolved x, w) \<Rightarrow> f x w)"
  by (auto simp: bindM_def split: option.splits prod.splits attempt.splits)

section \<open>What a completed computation has done\<close>

lemma withBackoffM_loop_last:
  assumes s: "\<And>d w. I w \<Longrightarrow> I (logged (Sleep d) w)"
  shows "withBackoffM_loop fn d w = Some y \<Longrightarrow> preserves I fn \<Longrightarrow> I w \<Longrightarrow>
    \<exists>w1. I w1 \<and> fn w1 = Some y"
proof (induction fn d w y rule: withBackoffM_loop.raw_induct [rotated 1, consumes 1])
  case (1 loop fn d w y)
  note ih = 1(1) and eq = 1(2) and f = 1(3) and i = 1(4)
  show ?case
  proof (cases "fn w")
    case None
    with eq show ?thesis by simp
  next
    case (Some p)
    obtain r w' where p: "p = (r, w')" by (cases p)
    have iw': "I w'" using f i Some p unfolding preserves_def by blast
    show ?thesis
    proof (cases r)
      case (Resolved x)
      with eq Some p have "fn w = Some y" by auto
      with i show ?thesis by blast
    next
      case (Rejected e)
      show ?thesis
      proof (cases "retryable (err_code e)")
        case False
        with eq Some p Rejected have "fn w = Some y" by auto
        with i show ?thesis by blast
      next
        case True
        with eq Some p Rejected
        have "loop fn (min (d * 2) 30000) (logged (Sleep d) w') = Some y" by simp
        then show ?thesis using f s [OF iw'] by (rule ih)
      qed
    qed
  qed
qed

lemma withBackoffM_last:
  assumes "withBackoffM fn w = Some y" and "preserves I fn" and "I w"
    and "\<And>d w. I w \<Longrightarrow> I (logged (Sleep d) w)"
  shows "\<exists>w1. I w1 \<and> fn w1 = Some y"
  using withBackoffM_loop_last [of I fn 500 w y] assms unfolding withBackoffM_def by blast

lemma answered_iff:
  "answered ev l c \<longleftrightarrow>
     (\<exists>i < length l. l ! i = c \<and>
        (case srv_unit ev (take i l) c of
           Settles t (Resolved x) \<Rightarrow> int t < max 1 (apiTimeoutMs ev)
         | _ \<Rightarrow> False))"
  by (auto simp: answered_def list_ex_iff)

lemma answered_append:
  assumes "answered ev l c"
  shows "answered ev (l @ l') c"
proof -
  from assms obtain i where i: "i < length l" "l ! i = c"
    "case srv_unit ev (take i l) c of
       Settles t (Resolved x) \<Rightarrow> int t < max 1 (apiTimeoutMs ev) | _ \<Rightarrow> False"
    unfolding answered_iff by blast
  have "i < length (l @ l')" "(l @ l') ! i = c" "take i (l @ l') = take i l"
    using i by (simp_all add: nth_append)
  with i(3) show ?thesis unfolding answered_iff by metis
qed

lemma answered_closed: "closed_under (\<lambda>c. True) (\<lambda>l. answered ev l c)"
  by (simp add: closed_under_def answered_append)

lemma answered_api_timed:
  assumes "api_timed ev (srv_unit ev) c msg w1 = Some (Resolved x, w')"
  shows "answered ev (calls w') c"
proof -
  from assms have w': "calls w' = calls w1 @ [c]"
    and r: "withTimeout (srv_unit ev (calls w1) c) (apiTimeoutMs ev) msg = Resolved x"
    by (auto simp: api_timed_def logged_def)
  from r have "case srv_unit ev (calls w1) c of
           Settles t (Resolved x) \<Rightarrow> int t < max 1 (apiTimeoutMs ev)
         | _ \<Rightarrow> False"
    by (auto simp: withTimeout_def Let_def split: promise.splits attempt.splits if_splits)
  then show ?thesis unfolding answered_iff w'
    by (intro exI [of _ "length (calls w1)"]) simp
qed

lemma forM_establish:
  assumes step: "\<And>x v v'. x \<in> set xs \<Longrightarrow> I v \<Longrightarrow> f x v = Some (Resolved (), v') \<Longrightarrow> Q x v'"
    and pres_I: "\<And>x. x \<in> set xs \<Longrightarrow> preserves I (f x)"
    and stable: "\<And>x y. x \<in> set xs \<Longrightarrow> preserves (Q y) (f x)"
  shows "I w \<Longrightarrow> forM xs f w = Some (Resolved (), w') \<Longrightarrow> I w' \<and> (\<forall>x \<in> set xs. Q x w')"
  using assms
proof (induction xs arbitrary: w)
  case Nil
  then show ?case by (simp add: returnM_def)
next
  case (Cons x xs)
  from bindM_Some [OF Cons.prems(2) [unfolded forM.simps]]
  obtain v where fx: "f x w = Some (Resolved (), v)" and rest: "forM xs f v = Some (Resolved (), w')"
    by auto
  have iv: "I v" using Cons.prems(4) [of x] Cons.prems(1) fx unfolding preserves_def by auto
  have qx: "Q x v" using Cons.prems(3) [of x w v] Cons.prems(1) fx by simp
  have ih: "I w' \<and> (\<forall>y \<in> set xs. Q y w')"
    using Cons.IH [OF iv rest] Cons.prems(3,4,5) by (metis list.set_intros(2))
  have st: "preserves (Q x) (forM xs f)"
    using Cons.prems(5) by (intro pres_forM) simp
  have "Q x w'" using st qx rest unfolding preserves_def by blast
  with ih show ?case by simp
qed

section \<open>The example\<close>

lemma ex_newTag:
  "newTag (\<lambda>i. 0) 0 [] = Some (''aaaaaaaaaaaaaaaaaaaa'', [''aaaaaaaaaaaaaaaaaaaa''], 20)"
  by code_simp

lemma ex_stores:
  "build_info (ex_people ''a'') =
     [(''people/a1'', ex_info None 0 ''Bob''), (''people/a2'', ex_info None 0 ''bob'')]"
  "build_info (ex_people ''b'') = [(''people/b1'', ex_info None 0 ''BOB'')]"
  by (simp_all add: build_info_def info_step_def ex_people_def ex_contact_def empty_person_def
      person_name_def ex_info_def tagls_def first_or_null_def Let_def)

lemma ex_lower:
  "toLowerCase ''Bob'' = ''bob''" "toLowerCase ''bob'' = ''bob''" "toLowerCase ''BOB'' = ''bob''"
  by code_simp+

section \<open>The deletion phase\<close>

lemma set_set_add [simp]: "set (set_add s x) = insert x (set s)"
  by (auto simp: set_add_def)

lemma set_foldl_set_add [simp]: "set (foldl set_add s xs) = set s \<union> set xs"
  by (induction xs arbitrary: s) auto

lemma set_all_tags_aux:
  "set (foldl (\<lambda>s st. foldl set_add s (tags_of st)) s0 sts) = set s0 \<union> (\<Union>st \<in> set sts. set (tags_of st))"
  by (induction sts arbitrary: s0) auto

lemma set_all_tags: "set (all_tags sts) = (\<Union>st \<in> set sts. set (tags_of st))"
  by (simp add: all_tags_def set_all_tags_aux)

lemma set_to_delete_aux:
  "set (foldl (\<lambda>s st. foldl set_add s (filter (\<lambda>t. t \<notin> set (tags_of st)) A)) s0 sts)
     = set s0 \<union> (\<Union>st \<in> set sts. set A - set (tags_of st))"
  by (induction sts arbitrary: s0) auto

lemma set_to_delete: "set (to_delete A sts) = (\<Union>st \<in> set sts. set A - set (tags_of st))"
  by (simp add: to_delete_def set_to_delete_aux)

lemma tags_of_iff: "t \<in> set (tags_of st) \<longleftrightarrow> t \<noteq> [] \<and> (\<exists>(rn, v) \<in> set st. tag v = Some t)"
  by (induction st) (auto simp: tags_of_def split: option.splits)

lemma delete_contact_answered:
  assumes d: "delete_contact ev u t w = Some (Resolved (), w')"
    and l: "tagToRn (info (the_replica w u)) t = Inr (Some rn)" and n: "rn \<noteq> []"
  shows "answered ev (calls w') (DeleteContact u rn)"
proof -
  from d l n have "withBackoffM (api_timed ev (srv_unit ev) (DeleteContact u rn)
                 (''Timeout deleting contact '' @ rn @ '' for '' @ u)) w = Some (Resolved (), w')"
    by (simp add: delete_contact_def readM_def)
  from withBackoffM_last [OF this, of "\<lambda>w. True"]
  obtain w1 where "api_timed ev (srv_unit ev) (DeleteContact u rn)
                 (''Timeout deleting contact '' @ rn @ '' for '' @ u) w1 = Some (Resolved (), w')"
    by (auto simp: preserves_def)
  then show ?thesis by (rule answered_api_timed)
qed

lemma pres_con_delete_contact:
  "preserves (\<lambda>w. P (con w)) (delete_contact ev u t)"
  unfolding delete_contact_def
  by (intro log_pres_intros) simp_all

lemma pres_answered_delete_contact:
  "preserves (\<lambda>w. answered ev (calls w) c) (delete_contact ev u t)"
  by (rule pres_contact_methods(1) [OF closed_under_mono [OF answered_closed]]) simp

text \<open>The writes a computation adds to the log of \<open>w\<close> all satisfy \<open>P\<close>.\<close>

lemma only_closed:
  "closed_under (\<lambda>c. is_write c \<longrightarrow> P c) (\<lambda>l. \<exists>cs. l = l0 @ cs \<and> (\<forall>c \<in> set cs. is_write c \<longrightarrow> P c))"
  by (auto simp: closed_under_def)

lemma delete_contact_only:
  assumes "\<And>rn. tagToRn (info (the_replica w u)) t = Inr (Some rn) \<Longrightarrow> P (DeleteContact u rn)"
  shows "preserves (\<lambda>v. con v = con w \<and> (\<exists>cs. calls v = l0 @ cs \<and> (\<forall>c \<in> set cs. is_write c \<longrightarrow> P c)))
           (delete_contact ev u t)"
  unfolding delete_contact_def
  by (intro log_pres_intros) (use assms in \<open>auto simp: logged_def the_replica_def\<close>)


lemma preserves_all:
  "(\<And>z. A z \<Longrightarrow> preserves (R z) m) \<Longrightarrow> preserves (\<lambda>v. \<forall>z. A z \<longrightarrow> R z v) m"
  unfolding preserves_def by blast

lemma the_replica_con: "con v = con w \<Longrightarrow> the_replica v u = the_replica w u"
  by (simp add: the_replica_def)


lemma pres_del_ok: "preserves (del_ok ev w u t) (delete_contact ev u' t')"
  unfolding del_ok_def
  apply (rule preserves_all)
  apply (rule pres_answered_delete_contact)
  done

lemma del_ok_step:
  assumes "con x = con w" and "delete_contact ev u t x = Some (Resolved (), x')"
  shows "del_ok ev w u t x'"
proof -
  have "the_replica x u = the_replica w u" using assms(1) by (rule the_replica_con)
  then show ?thesis
    unfolding del_ok_def using delete_contact_answered [of ev u t x x'] assms(2) by simp
qed

lemma delete_inner:
  assumes iv: "con v = con w"
    and l: "forM toDelete (\<lambda>t. delete_contact ev u t) v = Some (Resolved (), v')"
  shows "con v' = con w \<and> (\<forall>t \<in> set toDelete. del_ok ev w u t v')"
proof (rule forM_establish [where I = "\<lambda>v. con v = con w" and Q = "del_ok ev w u" and f = "\<lambda>t. delete_contact ev u t",
      OF _ _ _ iv l])
  fix t x x'
  assume "con x = con w" and "delete_contact ev u t x = Some (Resolved (), x')"
  then show "del_ok ev w u t x'" by (rule del_ok_step)
next
  fix t show "preserves (\<lambda>v. con v = con w) (delete_contact ev u t)"
    by (rule pres_con_delete_contact [of "\<lambda>c. c = con w"])
next
  fix t t' show "preserves (del_ok ev w u t') (delete_contact ev u t)" by (rule pres_del_ok)
qed


lemma pres_del_ok_all:
  "preserves (\<lambda>v. \<forall>t. t \<in> set toDelete \<longrightarrow> del_ok ev w u t v) (forM ts (\<lambda>t. delete_contact ev u' t))"
  apply (rule preserves_all)
  apply (rule pres_forM)
  apply (rule pres_del_ok)
  done

lemma delete_loops_answered:
  assumes d: "forM active (\<lambda>u. forM toDelete (\<lambda>t. delete_contact ev u t)) w = Some (Resolved (), w1)"
  shows "con w1 = con w \<and> (\<forall>u \<in> set active. \<forall>t. t \<in> set toDelete \<longrightarrow> del_ok ev w u t w1)"
proof (rule forM_establish [where I = "\<lambda>v. con v = con w"
      and Q = "\<lambda>u v. \<forall>t. t \<in> set toDelete \<longrightarrow> del_ok ev w u t v"
      and f = "\<lambda>u. forM toDelete (\<lambda>t. delete_contact ev u t)", OF _ _ _ _ d])
  fix u x x'
  assume "con x = con w" and "forM toDelete (\<lambda>t. delete_contact ev u t) x = Some (Resolved (), x')"
  then show "\<forall>t. t \<in> set toDelete \<longrightarrow> del_ok ev w u t x'"
    using delete_inner by blast
next
  fix u show "preserves (\<lambda>v. con v = con w) (forM toDelete (\<lambda>t. delete_contact ev u t))"
    by (rule pres_forM) (rule pres_con_delete_contact [of "\<lambda>c. c = con w"])
next
  fix u u' show "preserves (\<lambda>v. \<forall>t. t \<in> set toDelete \<longrightarrow> del_ok ev w u' t v)
      (forM toDelete (\<lambda>t. delete_contact ev u t))"
    by (rule pres_del_ok_all)
next
  show "con w = con w" by simp
qed


lemma delete_contact_only':
  assumes "u \<in> set active" "t \<in> set toDelete"
  shows "preserves (\<lambda>v. con v = con w \<and>
            (\<exists>cs. calls v = l0 @ cs \<and> (\<forall>c \<in> set cs. is_write c \<longrightarrow> propagated_delete w active toDelete c)))
           (delete_contact ev u t)"
  by (rule delete_contact_only) (use assms in \<open>auto simp: propagated_delete_def list_ex_iff\<close>)

lemma delete_loops_only:
  assumes "forM active (\<lambda>u. forM toDelete (\<lambda>t. delete_contact ev u t)) w = Some (r, w1)"
  shows "\<exists>cs. calls w1 = calls w @ cs \<and> (\<forall>c \<in> set cs. is_write c \<longrightarrow> propagated_delete w active toDelete c)"
proof -
  let ?I = "\<lambda>v. con v = con w \<and>
            (\<exists>cs. calls v = calls w @ cs \<and> (\<forall>c \<in> set cs. is_write c \<longrightarrow> propagated_delete w active toDelete c))"
  have "preserves ?I (forM active (\<lambda>u. forM toDelete (\<lambda>t. delete_contact ev u t)))"
    by (rule pres_forM, rule pres_forM, rule delete_contact_only')
  moreover have "?I w" by simp
  ultimately have "?I w1" using assms unfolding preserves_def by blast
  then show ?thesis by blast
qed

lemma refresh_only:
  assumes "forM active (getInfo ev) w1 = Some (r, w')"
    and "\<exists>cs. calls w1 = l0 @ cs \<and> (\<forall>c \<in> set cs. is_write c \<longrightarrow> P c)"
  shows "\<exists>cs. calls w' = l0 @ cs \<and> (\<forall>c \<in> set cs. is_write c \<longrightarrow> P c)"
proof -
  have c: "closed_under (\<lambda>c. \<not> is_write c \<and> \<not> is_cfg_write c)
      (\<lambda>l. \<exists>cs. l = l0 @ cs \<and> (\<forall>c \<in> set cs. is_write c \<longrightarrow> P c))"
    by (rule closed_under_mono [OF only_closed]) simp
  have "preserves (\<lambda>w. \<exists>cs. calls w = l0 @ cs \<and> (\<forall>c \<in> set cs. is_write c \<longrightarrow> P c)) (forM active (getInfo ev))"
    by (rule pres_forM) (rule pres_getInfo_reads [OF c])
  then show ?thesis using assms unfolding preserves_def by blast
qed

lemma refresh_answered:
  assumes "forM active (getInfo ev) w1 = Some (r, w')" and "del_ok ev w u t w1"
  shows "del_ok ev w u t w'"
proof -
  have "preserves (\<lambda>v. answered ev (calls v) c) (forM active (getInfo ev))" for c
    by (rule pres_forM) (rule pres_getInfo [OF closed_under_mono [OF answered_closed]], simp)
  then have "preserves (del_ok ev w u t) (forM active (getInfo ev))"
    unfolding del_ok_def by (rule preserves_all)
  then show ?thesis using assms unfolding preserves_def by blast
qed

lemma ex2_replicas:
  "the_replica ex_world2 ''a'' =
     \<lparr>info = [(''people/c1'', ex_info (Some ''t1'') 900 ''Ann''),
              (''people/c2'', ex_info (Some ''t2'') 100 ''Bea'')],
      infoGroup = [(''contactGroups/g1'', ex_info (Some ''gt1'') 0 ''Friends''),
                   (''contactGroups/g2'', ex_info (Some ''gt2'') 0 ''Work'')]\<rparr>"
  "the_replica ex_world2 ''b'' =
     \<lparr>info = [(''people/k1'', ex_info (Some ''t1'') 700 ''Ann'')],
      infoGroup = [(''contactGroups/h1'', ex_info (Some ''gt1'') 0 ''Friends'')]\<rparr>"
  by (simp_all add: ex_world2_def the_replica_def)

lemma ex2_to_delete:
  "to_delete (all_tags (stores ex_world2 [''a'', ''b''])) (stores ex_world2 [''a'', ''b'']) = [''t2'']"
  by (simp add: stores_def ex2_replicas to_delete_def all_tags_def tags_of_def ex_info_def set_add_def)

lemma ex2_lookups:
  "tagToRn (info (the_replica ex_world2 ''a'')) ''t2'' = Inr (Some ''people/c2'')"
  "tagToRn (info (the_replica ex_world2 ''b'')) ''t2'' = Inr None"
  by (simp_all add: ex2_replicas tagToRn_def ex_info_def)

lemma ex2_delete_phase:
  "contacts_delete_phase ex_env [''a'', ''b''] ex_world2 =
     Some (Resolved (),
       \<lparr>calls = [DeleteContact ''a'' ''people/c2'',
                 ConnectionsList ''a'' [''names'', ''organizations'', ''clientData'', ''metadata''],
                 GroupsList ''a'',
                 ConnectionsList ''b'' [''names'', ''organizations'', ''clientData'', ''metadata''],
                 GroupsList ''b''],
        con = [(''a'', \<lparr>info = [(''people/a1'', ex_info None 0 ''Bob''), (''people/a2'', ex_info None 0 ''bob'')],
                        infoGroup = []\<rparr>),
               (''b'', \<lparr>info = [(''people/b1'', ex_info None 0 ''BOB'')], infoGroup = []\<rparr>)],
        usedTags = [], rnd_pos = 0\<rparr>)"
  unfolding contacts_delete_phase_def readM_def ex2_to_delete Let_def
  by (simp add: delete_contact_def readM_def the_replica_def tagToRn_def ex_info_def bindM_def returnM_def
      getInfo_def getAllContacts_def getContactGroups_def modifyM_def api_timed_def withTimeout_def
      logged_def set_info_def set_infoGroup_def withBackoffM_Resolved ex_env_def ex_stores
      build_infoGroup_def ex_world2_def world0_def)

section \<open>The writes of the configuration file\<close>

lemma load_cfg_writes:
  assumes "loadConfigOrCreateDefault ev dir w0 = Some (r, w)" and "filter is_cfg_write (calls w0) = []"
  shows "(filter is_cfg_write (calls w) = [] \<or> filter is_cfg_write (calls w) = load_writes dir) \<and>
         (json_file dir \<noteq> None \<longrightarrow> filter is_cfg_write (calls w) = []) \<and>
         ((\<exists>cfg. r = Resolved cfg) \<longrightarrow> filter is_cfg_write (calls w) = load_writes dir)"
  using assms
  by (auto simp: loadConfigOrCreateDefault_def load_writes_def bindM_def api_plain_def logged_def
      returnM_def throwM_def
      split: option.splits promise.splits attempt.splits json_content.splits if_splits)

lemma run_body_cfg_writes:
  assumes "run_body ev opts cfg w0 = Some (r, w)"
  shows "filter is_cfg_write (calls w) = filter is_cfg_write (calls w0)"
proof -
  have c: "closed_under (\<lambda>c. \<not> is_cfg_write c) (\<lambda>l. filter is_cfg_write l = filter is_cfg_write (calls w0))"
    by (simp add: closed_under_def)
  from pres_run_body [OF c, of ev opts cfg] assms show ?thesis
    unfolding preserves_def by blast
qed

lemma before_save_cfg_writes:
  assumes "before_save ev opts dir world0 = Some (r, w)"
  shows "(filter is_cfg_write (calls w) = [] \<or> filter is_cfg_write (calls w) = load_writes dir) \<and>
         (json_file dir \<noteq> None \<longrightarrow> filter is_cfg_write (calls w) = []) \<and>
         ((\<exists>cfg. r = Resolved cfg) \<longrightarrow> filter is_cfg_write (calls w) = load_writes dir)"
proof -
  have z: "filter is_cfg_write (calls world0) = []" by (simp add: world0_def)
  from bindM_Some [OF assms [unfolded before_save_def]] show ?thesis
  proof
    assume "\<exists>e. loadConfigOrCreateDefault ev dir world0 = Some (Rejected e, w) \<and> r = Rejected e"
    then obtain e where l: "loadConfigOrCreateDefault ev dir world0 = Some (Rejected e, w)"
      and r: "r = Rejected e" by blast
    from load_cfg_writes [OF l z] r show ?thesis by simp
  next
    assume "\<exists>cfg w0. loadConfigOrCreateDefault ev dir world0 = Some (Resolved cfg, w0) \<and>
        bindM (run_body ev opts cfg) (\<lambda>_. returnM cfg) w0 = Some (r, w)"
    then obtain cfg w0 where l: "loadConfigOrCreateDefault ev dir world0 = Some (Resolved cfg, w0)"
      and b: "bindM (run_body ev opts cfg) (\<lambda>_. returnM cfg) w0 = Some (r, w)" by blast
    from bindM_Some [OF b] obtain r' where "run_body ev opts cfg w0 = Some (r', w)"
      by (auto simp: returnM_def)
    from run_body_cfg_writes [OF this] load_cfg_writes [OF l z] show ?thesis by auto
  qed
qed

lemma config_json_append:
  "config_json ev h (l1 @ l2) f = config_json ev (h @ l1) l2 (config_json ev h l1 f)"
  by (induction l1 arbitrary: h f) simp_all

lemma config_json_untouched:
  "filter is_cfg_write l = [] \<Longrightarrow> config_json ev h l f = f"
proof (induction l arbitrary: h)
  case Nil
  show ?case by simp
next
  case (Cons c l)
  then show ?case by (cases c) (simp_all split: if_splits)
qed

lemma config_json_one_write:
  "filter is_cfg_write l = [WriteConfig d] \<Longrightarrow>
     config_json ev h l f = Some (Parsed d) \<or> config_json ev h l f = Some Unparsable"
proof (induction l arbitrary: h f)
  case Nil
  then show ?case by simp
next
  case (Cons c l)
  show ?case
  proof (cases "is_cfg_write c")
    case True
    with Cons.prems have c: "c = WriteConfig d" and l: "filter is_cfg_write l = []" by simp_all
    show ?thesis unfolding config_json.simps config_json_untouched [OF l] c
      by (simp split: promise.splits attempt.splits)
  next
    case False
    with Cons.prems have l: "filter is_cfg_write l = [WriteConfig d]" by simp
    from False have "(case c of WriteConfig data \<Rightarrow>
            (case srv_unit ev h c of Settles t (Resolved x) \<Rightarrow> Some (Parsed data) | _ \<Rightarrow> Some Unparsable)
        | _ \<Rightarrow> f) = f" by (cases c) simp_all
    then show ?thesis using Cons.IH [OF l] by simp
  qed
qed

lemma save_Some:
  assumes "saveConfigLastRun ev cfg w1 = Some (r, w)"
  shows "calls w = calls w1 @ [WriteConfig (saved_config ev cfg w1)] \<and>
         (\<exists>t. srv_unit ev (calls w1) (WriteConfig (saved_config ev cfg w1)) = Settles t r)"
  using assms
  by (auto simp: saveConfigLastRun_def readM_def api_plain_def logged_def split: promise.splits)

lemmas load_defs = before_save_def loadConfigOrCreateDefault_def saveConfigLastRun_def saved_config_def
  nowUtcPlus5SecondsIso_def migrateIniToJson_def ex_ini_def ex_dir_def

section \<open>The resilient call wrapper\<close>

lemma backoff_delay: "min (min (d * 2) 30000 * 2 ^ j) 30000 = min (d * 2 ^ Suc j) (30000::nat)"
proof (cases "d * 2 \<le> 30000")
  case True
  then show ?thesis by (simp add: min_def mult.assoc)
next
  case False
  have one: "(1::nat) \<le> 2 ^ j" by simp
  have "(30000::nat) * 1 \<le> 30000 * 2 ^ j" using one by (rule mult_le_mono2)
  then have b: "min (30000 * 2 ^ j) 30000 = (30000::nat)" by simp
  have dj: "d * 1 \<le> d * 2 ^ j" using one by (rule mult_le_mono2)
  have sj: "d * 2 ^ Suc j = 2 * (d * 2 ^ j)" by simp
  have c: "30000 \<le> d * 2 ^ Suc j" unfolding sj using False dj by linarith
  from False have a: "min (d * 2) 30000 = (30000::nat)" by simp
  show ?thesis unfolding a b using c by simp
qed

lemma retryable_iff: "retryable c = (c = JNum 429 \<or> c = JNum 409 \<or> (\<exists>n. c = JNum n \<and> 500 \<le> n \<and> n \<le> 599))"
  by (cases c) (auto simp: retryable_def)

lemma loop_retries:
  assumes "\<forall>i<n. \<exists>e. fn (k + i) = Rejected e \<and> retryable (err_code e)"
    and "\<forall>e. fn (k + n) = Rejected e \<longrightarrow> \<not> retryable (err_code e)"
    and "d \<le> 30000"
  shows "withBackoff_loop fn k d slept = Some (fn (k + n), slept @ map (\<lambda>j. min (d * 2 ^ j) 30000) [0..<n])"
  using assms
proof (induction n arbitrary: k d slept)
  case 0
  then show ?case
    by (subst withBackoff_loop.simps) (auto split: attempt.splits)
next
  case (Suc n)
  from Suc.prems(1) obtain e where e: "fn k = Rejected e" "retryable (err_code e)"
    by (metis add.right_neutral zero_less_Suc)
  have p1: "\<forall>i<n. \<exists>e. fn (Suc k + i) = Rejected e \<and> retryable (err_code e)"
    using Suc.prems(1) by (metis Suc_less_eq add_Suc_shift)
  have p2: "\<forall>e. fn (Suc k + n) = Rejected e \<longrightarrow> \<not> retryable (err_code e)"
    using Suc.prems(2) by simp
  have ih: "withBackoff_loop fn (Suc k) (min (d * 2) 30000) (slept @ [d]) =
      Some (fn (Suc k + n), (slept @ [d]) @ map (\<lambda>j. min (min (d * 2) 30000 * 2 ^ j) 30000) [0..<n])"
    by (rule Suc.IH [OF p1 p2]) simp
  have m: "map (\<lambda>j. min (d * 2 ^ j) 30000) [0..<Suc n] =
      d # map (\<lambda>j. min (min (d * 2) 30000 * 2 ^ j) 30000) [0..<n]"
    using Suc.prems(3)
    by (simp add: upt_conv_Cons map_Suc_upt [symmetric] backoff_delay del: upt_Suc)
  show ?case
    by (subst withBackoff_loop.simps) (simp add: e ih m del: upt_Suc)
qed

lemma loop_forever:
  assumes "withBackoff_loop fn k d slept = Some y"
  shows "\<exists>i. \<forall>e. fn (k + i) = Rejected e \<longrightarrow> \<not> retryable (err_code e)"
  using assms
proof (induction fn k d slept y rule: withBackoff_loop.raw_induct [rotated 1, consumes 1])
  case (1 loop fn k d slept y)
  show ?case
  proof (cases "\<forall>e. fn k = Rejected e \<longrightarrow> \<not> retryable (err_code e)")
    case True
    then show ?thesis by (metis add.right_neutral)
  next
    case False
    then obtain e where e: "fn k = Rejected e" "retryable (err_code e)" by blast
    with 1(2) have "loop fn (Suc k) (min (d * 2) 30000) (slept @ [d]) = Some y" by simp
    then have "\<exists>i. \<forall>e. fn (Suc k + i) = Rejected e \<longrightarrow> \<not> retryable (err_code e)" by (rule 1(1))
    then obtain i where "\<forall>e. fn (Suc k + i) = Rejected e \<longrightarrow> \<not> retryable (err_code e)" by blast
    then show ?thesis by (metis add_Suc_shift)
  qed
qed


lemma loop_forever_None:
  assumes "\<forall>i. \<exists>e. fn i = Rejected e \<and> retryable (err_code e)"
  shows "withBackoff_loop fn k d slept = None"
proof (cases "withBackoff_loop fn k d slept")
  case None
  then show ?thesis .
next
  case (Some y)
  from loop_forever [OF Some] obtain i where "\<forall>e. fn (k + i) = Rejected e \<longrightarrow> \<not> retryable (err_code e)"
    by blast
  with assms show ?thesis by blast
qed

text \<open>
  Claim C6. An attempt that fails with code 429, 409 or a code from 500 to 599 is retried
  after a sleep; the sleeps are 500 ms, then twice the previous one, capped at 30000 ms,
  and their number has no bound (any number \<open>n\<close> of such failures is retried, and a wrapper
  whose attempts all fail this way never returns). The first attempt that succeeds or fails
  with any other error ends the call with that outcome. A timeout of \<open>withTimeout\<close> is an
  error without code: it is not retried.
\<close>

theorem withBackoff_retry_classification:
  fixes fn :: "nat \<Rightarrow> 'a attempt" and promise :: "'b promise"
  shows
  "((\<forall>i<n. \<exists>e. fn i = Rejected e \<and>
        (err_code e = JNum 429 \<or> err_code e = JNum 409 \<or>
         (\<exists>c. err_code e = JNum c \<and> 500 \<le> c \<and> c \<le> 599))) \<and>
    ((\<exists>x. fn n = Resolved x) \<or>
     (\<exists>e. fn n = Rejected e \<and> err_code e \<noteq> JNum 429 \<and> err_code e \<noteq> JNum 409 \<and>
        (\<forall>c. err_code e = JNum c \<longrightarrow> c < 500 \<or> 599 < c)))
    \<longrightarrow> withBackoff fn = Some (fn n, map (\<lambda>j. min (500 * 2 ^ j) 30000) [0..<n]))
   \<and> ((\<forall>i. \<exists>e. fn i = Rejected e \<and>
        (err_code e = JNum 429 \<or> err_code e = JNum 409 \<or>
         (\<exists>c. err_code e = JNum c \<and> 500 \<le> c \<and> c \<le> 599)))
    \<longrightarrow> withBackoff fn = None)
   \<and> ((promise = Pending \<or> (\<exists>t r. promise = Settles t r \<and> max 1 ms \<le> int t))
    \<longrightarrow> withTimeout promise ms message = Rejected (TimeoutError message) \<and>
        err_code (TimeoutError message) = JUndefined \<and>
        withBackoff (\<lambda>k. withTimeout promise ms message) = Some (Rejected (TimeoutError message), []))"
proof (intro conjI impI)
  assume h: "(\<forall>i<n. \<exists>e. fn i = Rejected e \<and>
        (err_code e = JNum 429 \<or> err_code e = JNum 409 \<or>
         (\<exists>c. err_code e = JNum c \<and> 500 \<le> c \<and> c \<le> 599))) \<and>
    ((\<exists>x. fn n = Resolved x) \<or>
     (\<exists>e. fn n = Rejected e \<and> err_code e \<noteq> JNum 429 \<and> err_code e \<noteq> JNum 409 \<and>
        (\<forall>c. err_code e = JNum c \<longrightarrow> c < 500 \<or> 599 < c)))"
  have a: "\<forall>i<n. \<exists>e. fn (0 + i) = Rejected e \<and> retryable (err_code e)"
    using h by (simp add: retryable_iff)
  have b: "\<forall>e. fn (0 + n) = Rejected e \<longrightarrow> \<not> retryable (err_code e)"
    using h by (auto simp: retryable_iff)
  show "withBackoff fn = Some (fn n, map (\<lambda>j. min (500 * 2 ^ j) 30000) [0..<n])"
    unfolding withBackoff_def using loop_retries [OF a b, of 500 "[]"] by simp
next
  assume "\<forall>i. \<exists>e. fn i = Rejected e \<and>
        (err_code e = JNum 429 \<or> err_code e = JNum 409 \<or>
         (\<exists>c. err_code e = JNum c \<and> 500 \<le> c \<and> c \<le> 599))"
  then have "\<forall>i. \<exists>e. fn i = Rejected e \<and> retryable (err_code e)"
    by (simp add: retryable_iff)
  then show "withBackoff fn = None"
    unfolding withBackoff_def by (rule loop_forever_None)
next
  assume p: "promise = Pending \<or> (\<exists>t r. promise = Settles t r \<and> max 1 ms \<le> int t)"
  then show t: "withTimeout promise ms message = Rejected (TimeoutError message)"
    by (auto simp: withTimeout_def Let_def)
  show "err_code (TimeoutError message) = JUndefined" by simp
  show "withBackoff (\<lambda>k. withTimeout promise ms message) = Some (Rejected (TimeoutError message), [])"
    unfolding withBackoff_def
    by (subst withBackoff_loop.simps) (simp add: t retryable_def)
qed

theorem withBackoff_retry_classification_witness:
  "withBackoff (\<lambda>k. if k < 7 then Rejected (ApiError JUndefined (JNum 503) [])
                    else (Rejected (ApiError (JNum 404) JUndefined []) :: nat attempt))
     = Some (Rejected (ApiError (JNum 404) JUndefined []), [500, 1000, 2000, 4000, 8000, 16000, 30000])
   \<and> withBackoff (\<lambda>k. (Rejected (ApiError (JNum 429) JUndefined []) :: nat attempt)) = None
   \<and> withBackoff (\<lambda>k. withTimeout (Settles 60000 (Resolved (1::nat))) 60000 ''t'')
     = Some (Rejected (TimeoutError ''t''), [])"
proof -
  let ?f = "\<lambda>k::nat. if k < 7 then Rejected (ApiError JUndefined (JNum 503) [])
                    else (Rejected (ApiError (JNum 404) JUndefined []) :: nat attempt)"
  let ?g = "\<lambda>k::nat. (Rejected (ApiError (JNum 429) JUndefined []) :: nat attempt)"
  have m: "map (\<lambda>j. min (500 * 2 ^ j) 30000) [0..<7] = [500, 1000, 2000, 4000, 8000, 16000, 30000::nat]"
    by (simp add: upt_conv_Cons)
  have h1: "(\<forall>i<7. \<exists>e. ?f i = Rejected e \<and>
        (err_code e = JNum 429 \<or> err_code e = JNum 409 \<or>
         (\<exists>c. err_code e = JNum c \<and> 500 \<le> c \<and> c \<le> 599))) \<and>
    ((\<exists>x. ?f 7 = Resolved x) \<or>
     (\<exists>e. ?f 7 = Rejected e \<and> err_code e \<noteq> JNum 429 \<and> err_code e \<noteq> JNum 409 \<and>
        (\<forall>c. err_code e = JNum c \<longrightarrow> c < 500 \<or> 599 < c)))"
    by simp
  have 1: "withBackoff ?f = Some (?f 7, map (\<lambda>j. min (500 * 2 ^ j) 30000) [0..<7])"
    using withBackoff_retry_classification [of 7 ?f "Pending :: nat promise" 0 "[]", THEN conjunct1] h1
    by (rule mp)
  have h2: "\<forall>i. \<exists>e. ?g i = Rejected e \<and>
        (err_code e = JNum 429 \<or> err_code e = JNum 409 \<or>
         (\<exists>c. err_code e = JNum c \<and> 500 \<le> c \<and> c \<le> 599))"
    by simp
  have 2: "withBackoff ?g = None"
    using withBackoff_retry_classification [of 0 ?g "Pending :: nat promise" 0 "[]", THEN conjunct2, THEN conjunct1] h2
    by (rule mp)
  have h3: "Settles 60000 (Resolved (1::nat)) = Pending \<or>
     (\<exists>t r. Settles 60000 (Resolved (1::nat)) = Settles t r \<and> max 1 60000 \<le> int t)"
    by simp
  have 3: "withBackoff (\<lambda>k. withTimeout (Settles 60000 (Resolved (1::nat))) 60000 ''t'')
     = Some (Rejected (TimeoutError ''t''), [])"
    using withBackoff_retry_classification [of 0 ?g "Settles 60000 (Resolved (1::nat))" 60000 "''t''",
        THEN conjunct2, THEN conjunct2, THEN mp, OF h3] by blast
  show ?thesis unfolding m [symmetric] using 1 2 3 by simp
qed


section \<open>Tag minting\<close>

lemma lower_letter: "char_of (97 + k mod 26 :: nat) \<in> set ''abcdefghijklmnopqrstuvwxyz''"
proof -
  have "\<forall>j \<in> set [0..<26]. char_of (97 + j :: nat) \<in> set ''abcdefghijklmnopqrstuvwxyz''"
    by code_simp
  moreover have "k mod 26 \<in> set [0..<26]" by simp
  ultimately show ?thesis by blast
qed

lemma tag_of_bytes_shape:
  "length (tag_of_bytes (randomBytes rnd pos 20)) = 20"
  "c \<in> set (tag_of_bytes buf) \<Longrightarrow> c \<in> set ''abcdefghijklmnopqrstuvwxyz''"
  using lower_letter by (auto simp: tag_of_bytes_def randomBytes_def simp del: set_simps)

lemma newTag_result:
  assumes "newTag rnd pos used = Some r"
  shows "\<exists>p. fst r = tag_of_bytes (randomBytes rnd p 20) \<and> fst r \<notin> set used \<and> fst (snd r) = used @ [fst r]"
  using assms
proof (induction rnd pos used r rule: newTag.raw_induct [rotated 1, consumes 1])
  case (1 loop rnd pos used r)
  then show ?case by (auto simp: Let_def split: if_splits)
qed

lemma newTag_returns:
  "tag_of_bytes (randomBytes rnd (pos + 20 * j) 20) \<notin> set used \<Longrightarrow> \<exists>r. newTag rnd pos used = Some r"
proof (induction j arbitrary: pos)
  case 0
  then show ?case by (subst newTag.simps) (simp add: Let_def)
next
  case (Suc j)
  have "tag_of_bytes (randomBytes rnd ((pos + 20) + 20 * j) 20) \<notin> set used"
    using Suc.prems by (simp add: add.assoc)
  then have "\<exists>r. newTag rnd (pos + 20) used = Some r" by (rule Suc.IH)
  then show ?case by (subst newTag.simps) (simp add: Let_def)
qed

lemma newTags_distinct:
  "newTags rnd n pos used = Some (ts, used', pos') \<Longrightarrow>
     distinct ts \<and> set ts \<inter> set used = {} \<and> length ts = n \<and> set used' = set used \<union> set ts"
proof (induction n arbitrary: pos used ts used' pos')
  case 0
  then show ?case by simp
next
  case (Suc n)
  from Suc.prems obtain t used1 pos1 ts1 where
    a: "newTag rnd pos used = Some (t, used1, pos1)" and
    b: "newTags rnd n pos1 used1 = Some (ts1, used', pos')" and
    c: "ts = t # ts1"
    by (auto split: option.splits)
  from newTag_result [OF a] have t: "t \<notin> set used" "used1 = used @ [t]" by auto
  from Suc.IH [OF b] have ih: "distinct ts1" "set ts1 \<inter> set used1 = {}" "length ts1 = n"
    "set used' = set used1 \<union> set ts1" by auto
  show ?case using t ih c by auto
qed

text \<open>
  Claim C9. A tag returned by \<open>newTag\<close> has exactly 20 characters, each a lowercase letter
  from \<open>a\<close> to \<open>z\<close>, is not in the set of used tags of the call, and is added to that set.
  The call returns as soon as the random source yields an unused tag. The tags of successive
  calls on the same set are pairwise distinct and distinct from the tags used before.
\<close>

theorem newTag_mints_fresh_lowercase_tags:
  "(newTag rnd pos used = Some (t, used', pos') \<longrightarrow>
      length t = 20 \<and> (\<forall>c \<in> set t. c \<in> set ''abcdefghijklmnopqrstuvwxyz'') \<and>
      t \<notin> set used \<and> used' = used @ [t])
   \<and> (tag_of_bytes (randomBytes rnd (pos + 20 * j) 20) \<notin> set used \<longrightarrow>
      (\<exists>r. newTag rnd pos used = Some r))
   \<and> (newTags rnd n pos used = Some (ts, useds, poss) \<longrightarrow>
      distinct ts \<and> set ts \<inter> set used = {} \<and> length ts = n \<and> set useds = set used \<union> set ts)"
proof (intro conjI impI)
  assume a: "newTag rnd pos used = Some (t, used', pos')"
  from newTag_result [OF a] obtain p where p: "t = tag_of_bytes (randomBytes rnd p 20)"
    "t \<notin> set used" "used' = used @ [t]" by auto
  show "length t = 20" using p(1) tag_of_bytes_shape(1) by simp
  show "\<forall>c \<in> set t. c \<in> set ''abcdefghijklmnopqrstuvwxyz''" using tag_of_bytes_shape(2) p(1) by blast
  show "t \<notin> set used" by (rule p(2))
  show "used' = used @ [t]" by (rule p(3))
next
  assume "tag_of_bytes (randomBytes rnd (pos + 20 * j) 20) \<notin> set used"
  then show "\<exists>r. newTag rnd pos used = Some r" by (rule newTag_returns)
next
  assume b: "newTags rnd n pos used = Some (ts, useds, poss)"
  show "distinct ts" "set ts \<inter> set used = {}" "length ts = n" "set useds = set used \<union> set ts"
    using newTags_distinct [OF b] by auto
qed


theorem newTag_mints_fresh_lowercase_tags_witness:
  "newTag (\<lambda>i. if i < 40 then 0 else if i < 60 then 1 else 2) 0 [''aaaaaaaaaaaaaaaaaaaa''] =
     Some (''bbbbbbbbbbbbbbbbbbbb'', [''aaaaaaaaaaaaaaaaaaaa'', ''bbbbbbbbbbbbbbbbbbbb''], 60)
   \<and> length ''bbbbbbbbbbbbbbbbbbbb'' = 20
   \<and> ''bbbbbbbbbbbbbbbbbbbb'' \<notin> set [''aaaaaaaaaaaaaaaaaaaa'']
   \<and> newTags (\<lambda>i. if i < 40 then 0 else if i < 60 then 1 else 2) 2 0 [''aaaaaaaaaaaaaaaaaaaa''] =
     Some ([''bbbbbbbbbbbbbbbbbbbb'', ''cccccccccccccccccccc''],
           [''aaaaaaaaaaaaaaaaaaaa'', ''bbbbbbbbbbbbbbbbbbbb'', ''cccccccccccccccccccc''], 80)
   \<and> distinct [''bbbbbbbbbbbbbbbbbbbb'', ''cccccccccccccccccccc'']"
proof -
  have a: "newTag (\<lambda>i. if i < 40 then 0 else if i < 60 then 1 else 2) 0 [''aaaaaaaaaaaaaaaaaaaa''] =
     Some (''bbbbbbbbbbbbbbbbbbbb'', [''aaaaaaaaaaaaaaaaaaaa'', ''bbbbbbbbbbbbbbbbbbbb''], 60)"
    by code_simp
  have b: "newTags (\<lambda>i. if i < 40 then 0 else if i < 60 then 1 else 2) 2 0 [''aaaaaaaaaaaaaaaaaaaa''] =
     Some ([''bbbbbbbbbbbbbbbbbbbb'', ''cccccccccccccccccccc''],
           [''aaaaaaaaaaaaaaaaaaaa'', ''bbbbbbbbbbbbbbbbbbbb'', ''cccccccccccccccccccc''], 80)"
    by code_simp
  have c: "tag_of_bytes (randomBytes (\<lambda>i. if i < 40 then 0 else if i < 60 then 1 else 2) (0 + 20 * 2) 20) \<notin> set [''aaaaaaaaaaaaaaaaaaaa'']"
    by code_simp
  show ?thesis
    using a b c newTag_mints_fresh_lowercase_tags [of "\<lambda>i. if i < 40 then 0 else if i < 60 then 1 else 2" 0 "[''aaaaaaaaaaaaaaaaaaaa'']"
        "''bbbbbbbbbbbbbbbbbbbb''" "[''aaaaaaaaaaaaaaaaaaaa'', ''bbbbbbbbbbbbbbbbbbbb'']" 60 2 2
        "[''bbbbbbbbbbbbbbbbbbbb'', ''cccccccccccccccccccc'']"
        "[''aaaaaaaaaaaaaaaaaaaa'', ''bbbbbbbbbbbbbbbbbbbb'', ''cccccccccccccccccccc'']" 80]
    by simp
qed

section \<open>Building the store\<close>

lemma keys_info_step:
  "fst ` set (info_step st p) = fst ` set st \<union>
     {rn. p_resourceName p = Some rn \<and> rn \<noteq> [] \<and> truthy (p_etag p) \<and> truthy (person_name p)}"
proof (cases "person_name p")
  case None
  then show ?thesis by (auto simp: info_step_def)
next
  case (Some nm)
  then have nn: "\<not> (p_names p = None \<and> p_organizations p = None)"
    by (auto simp: person_name_def split: option.splits list.splits)
  show ?thesis
    using Some nn
    by (cases "p_resourceName p"; cases "p_etag p")
       (auto simp: info_step_def keys_obj_set Let_def)
qed

lemma keys_foldl_info_step:
  "fst ` set (foldl info_step st ps) = fst ` set st \<union>
     {rn. \<exists>p \<in> set ps. p_resourceName p = Some rn \<and> rn \<noteq> [] \<and> truthy (p_etag p) \<and> truthy (person_name p)}"
proof (induction ps arbitrary: st)
  case Nil
  then show ?case by simp
next
  case (Cons p ps)
  show ?case unfolding foldl_Cons Cons.IH keys_info_step by auto
qed

lemma keys_infoGroup_step:
  "fst ` set (infoGroup_step st g) = fst ` set st \<union>
     {rn. g_groupType g = Some ''USER_CONTACT_GROUP'' \<and> g_resourceName g = Some rn \<and> rn \<noteq> [] \<and>
          truthy (g_etag g) \<and> truthy (g_name g)}"
  by (cases "g_resourceName g"; cases "g_etag g"; cases "g_name g")
     (auto simp: infoGroup_step_def keys_obj_set Let_def)

lemma keys_foldl_infoGroup_step:
  "fst ` set (foldl infoGroup_step st gs) = fst ` set st \<union>
     {rn. \<exists>g \<in> set gs. g_groupType g = Some ''USER_CONTACT_GROUP'' \<and> g_resourceName g = Some rn \<and> rn \<noteq> [] \<and>
          truthy (g_etag g) \<and> truthy (g_name g)}"
proof (induction gs arbitrary: st)
  case Nil
  then show ?case by simp
next
  case (Cons g gs)
  show ?case unfolding foldl_Cons Cons.IH keys_infoGroup_step by auto
qed

text \<open>
  Claim C5, as the code has it. A listed contact enters the store exactly when it has a
  resource name, an etag and a display name, each non-empty; a listed group exactly when it
  is a user contact group with a resource name, an etag and a name, each non-empty. Every
  other listed entity is skipped, and the load goes on.
\<close>

theorem store_build_skip_rule:
  "(rn \<in> fst ` set (build_info contacts) \<longleftrightarrow>
      (\<exists>p \<in> set contacts. p_resourceName p = Some rn \<and> rn \<noteq> [] \<and> truthy (p_etag p) \<and>
         truthy (person_name p)))
   \<and> (rn \<in> fst ` set (build_infoGroup groups) \<longleftrightarrow>
      (\<exists>g \<in> set groups. g_groupType g = Some ''USER_CONTACT_GROUP'' \<and> g_resourceName g = Some rn \<and>
         rn \<noteq> [] \<and> truthy (g_etag g) \<and> truthy (g_name g)))"
  unfolding build_info_def build_infoGroup_def keys_foldl_info_step keys_foldl_infoGroup_step
  by simp

theorem store_build_skip_rule_witness:
  "''people/c1'' \<in> fst ` set (build_info
      [empty_person\<lparr>p_resourceName := Some ''people/c1'', p_etag := Some ''e1'', p_names := Some [Some ''Ann'']\<rparr>])
   \<and> ''contactGroups/g1'' \<in> fst ` set (build_infoGroup
      [empty_group\<lparr>g_resourceName := Some ''contactGroups/g1'', g_etag := Some ''e2'', g_name := Some ''Friends'',
         g_groupType := Some ''USER_CONTACT_GROUP''\<rparr>])"
  using store_build_skip_rule [of "''people/c1''"
      "[empty_person\<lparr>p_resourceName := Some ''people/c1'', p_etag := Some ''e1'', p_names := Some [Some ''Ann'']\<rparr>]"]
    store_build_skip_rule [of "''contactGroups/g1''" "[]"
      "[empty_group\<lparr>g_resourceName := Some ''contactGroups/g1'', g_etag := Some ''e2'', g_name := Some ''Friends'',
         g_groupType := Some ''USER_CONTACT_GROUP''\<rparr>]"]
  by (simp add: empty_person_def empty_group_def person_name_def)

text \<open>
  The claim as stated fails: a contact with a resource name but no etag is skipped although
  it does not lack both, and a contact with a resource name and an etag but no name is skipped.
\<close>

theorem store_build_skip_rule_counterexample:
  "build_info [empty_person\<lparr>p_resourceName := Some ''people/c1'', p_names := Some [Some ''Ann'']\<rparr>] = []
   \<and> p_resourceName (empty_person\<lparr>p_resourceName := Some ''people/c1'', p_names := Some [Some ''Ann'']\<rparr>) \<noteq> None
   \<and> build_info [empty_person\<lparr>p_resourceName := Some ''people/c2'', p_etag := Some ''e2''\<rparr>] = []
   \<and> p_resourceName (empty_person\<lparr>p_resourceName := Some ''people/c2'', p_etag := Some ''e2''\<rparr>) = Some ''people/c2''
   \<and> p_etag (empty_person\<lparr>p_resourceName := Some ''people/c2'', p_etag := Some ''e2''\<rparr>) = Some ''e2''"
  by (simp add: build_info_def info_step_def empty_person_def person_name_def)

section \<open>The watermark\<close>

text \<open>
  Claim C7, as the code has it. A run that completes ends with the write of
  \<open>saveConfigLastRun\<close>: it is the last entry of the log, it comes after the loading and all the
  work of the run, its \<open>last\<close> is the clock at that moment plus 5000 ms, and it is what
  \<open>config.json\<close> then holds. The only other writes of \<open>config.json\<close> in a run are those of
  the loading, made when the file does not exist: the migration of the legacy file, which
  keeps its \<open>last\<close>, or the default file. A run that ends with an error or a process exit
  before \<open>saveConfigLastRun\<close> has written nothing else; when \<open>config.json\<close> existed at the
  start it has not written it at all and the file is as it was.
\<close>

theorem watermark_written_at_the_end:
  "(runSync ev opts dir = Some (Resolved (), w) \<longrightarrow>
      (\<exists>cfg w1. before_save ev opts dir world0 = Some (Resolved cfg, w1) \<and>
         calls w = calls w1 @ [WriteConfig (saved_config ev cfg w1)] \<and>
         cfg_last (saved_config ev cfg w1) = Some (Time (clock ev (calls w1) + 5000)) \<and>
         filter is_cfg_write (calls w1) = load_writes dir \<and>
         config_json ev [] (calls w) (json_file dir) = Some (Parsed (saved_config ev cfg w1))))
   \<and> (before_save ev opts dir world0 = Some (Rejected e, w) \<longrightarrow>
        runSync ev opts dir = Some (Rejected e, w) \<and>
        (filter is_cfg_write (calls w) = [] \<or> filter is_cfg_write (calls w) = load_writes dir) \<and>
        (json_file dir \<noteq> None \<longrightarrow>
           filter is_cfg_write (calls w) = [] \<and>
           config_json ev [] (calls w) (json_file dir) = json_file dir) \<and>
        (json_file dir = None \<and> ini_file dir = Some ini \<longrightarrow>
           config_json ev [] (calls w) (json_file dir) = None \<or>
           config_json ev [] (calls w) (json_file dir) = Some Unparsable \<or>
           config_json ev [] (calls w) (json_file dir) = Some (Parsed (migrateIniToJson ini))))
   \<and> cfg_last (migrateIniToJson ini) = Some (case ini_last ini of None \<Rightarrow> Time 63072000000 | Some d \<Rightarrow> d)"
proof (intro conjI impI)
  assume run: "runSync ev opts dir = Some (Resolved (), w)"
  from bindM_Some [OF run [unfolded runSync_def]] obtain cfg w1 where
    b: "before_save ev opts dir world0 = Some (Resolved cfg, w1)" and
    s: "saveConfigLastRun ev cfg w1 = Some (Resolved (), w)" by auto
  from save_Some [OF s] obtain t where
    c: "calls w = calls w1 @ [WriteConfig (saved_config ev cfg w1)]" and
    a: "srv_unit ev (calls w1) (WriteConfig (saved_config ev cfg w1)) = Settles t (Resolved ())" by blast
  have f: "filter is_cfg_write (calls w1) = load_writes dir"
    using before_save_cfg_writes [OF b] by simp
  have l: "cfg_last (saved_config ev cfg w1) = Some (Time (clock ev (calls w1) + 5000))"
    by (simp add: saved_config_def nowUtcPlus5SecondsIso_def)
  have j: "config_json ev [] (calls w) (json_file dir) = Some (Parsed (saved_config ev cfg w1))"
    unfolding c config_json_append using a by simp
  show "\<exists>cfg w1. before_save ev opts dir world0 = Some (Resolved cfg, w1) \<and>
         calls w = calls w1 @ [WriteConfig (saved_config ev cfg w1)] \<and>
         cfg_last (saved_config ev cfg w1) = Some (Time (clock ev (calls w1) + 5000)) \<and>
         filter is_cfg_write (calls w1) = load_writes dir \<and>
         config_json ev [] (calls w) (json_file dir) = Some (Parsed (saved_config ev cfg w1))"
    using b c l f j by blast
next
  assume b: "before_save ev opts dir world0 = Some (Rejected e, w)"
  show "runSync ev opts dir = Some (Rejected e, w)"
    by (simp add: runSync_def bindM_def b)
  show d: "filter is_cfg_write (calls w) = [] \<or> filter is_cfg_write (calls w) = load_writes dir"
    using before_save_cfg_writes [OF b] by blast
  {
    assume j: "json_file dir \<noteq> None"
    then show n: "filter is_cfg_write (calls w) = []" using before_save_cfg_writes [OF b] by blast
    show "config_json ev [] (calls w) (json_file dir) = json_file dir"
      by (rule config_json_untouched [OF n])
  }
  {
    assume j: "json_file dir = None \<and> ini_file dir = Some ini"
    from d show "config_json ev [] (calls w) (json_file dir) = None \<or>
           config_json ev [] (calls w) (json_file dir) = Some Unparsable \<or>
           config_json ev [] (calls w) (json_file dir) = Some (Parsed (migrateIniToJson ini))"
    proof
      assume "filter is_cfg_write (calls w) = []"
      from config_json_untouched [OF this] j show ?thesis by simp
    next
      assume "filter is_cfg_write (calls w) = load_writes dir"
      with j have "filter is_cfg_write (calls w) = [WriteConfig (migrateIniToJson ini)]"
        by (simp add: load_writes_def)
      from config_json_one_write [OF this] show ?thesis by blast
    qed
  }
next
  show "cfg_last (migrateIniToJson ini) = Some (case ini_last ini of None \<Rightarrow> Time 63072000000 | Some d \<Rightarrow> d)"
    by (simp add: migrateIniToJson_def)
qed


lemma ex_before_save_c:
  "before_save ex_env \<lparr>init = True, rlimSeconds = None\<rparr> (ex_dir [''c'']) world0 =
     Some (Resolved (ex_cfg [''c'']),
       \<lparr>calls = [MkdirConfigDir, ReadConfigJson, Authenticate ''c'',
                 ConnectionsList ''c'' [''names'', ''organizations'', ''clientData'', ''metadata''],
                 GroupsList ''c''],
        con = [(''c'', \<lparr>info = [], infoGroup = []\<rparr>)], usedTags = [], rnd_pos = 0\<rparr>)"
  by (simp add: load_defs run_defs init_phase_def withBackoffM_Resolved ex_env_def ex_cfg_def ex_people_def
      build_info_def build_infoGroup_def duplicates_def)

lemma ex_run_c:
  "runSync ex_env \<lparr>init = True, rlimSeconds = None\<rparr> (ex_dir [''c'']) =
     Some (Resolved (),
       \<lparr>calls = [MkdirConfigDir, ReadConfigJson, Authenticate ''c'',
                 ConnectionsList ''c'' [''names'', ''organizations'', ''clientData'', ''metadata''],
                 GroupsList ''c'',
                 WriteConfig ((ex_cfg [''c''])\<lparr>cfg_last := Some (Time 6000)\<rparr>)],
        con = [(''c'', \<lparr>info = [], infoGroup = []\<rparr>)], usedTags = [], rnd_pos = 0\<rparr>)"
  unfolding runSync_def bindM_def ex_before_save_c
  by (simp add: saveConfigLastRun_def saved_config_def readM_def
      api_plain_def logged_def nowUtcPlus5SecondsIso_def ex_env_def ex_cfg_def)

lemma ex_before_save_none:
  "before_save ex_env \<lparr>init = True, rlimSeconds = None\<rparr> (ex_dir []) world0 =
     Some (Rejected (ProcessExit 2),
       \<lparr>calls = [MkdirConfigDir, ReadConfigJson], con = [], usedTags = [], rnd_pos = 0\<rparr>)"
  by (simp add: load_defs run_defs ex_env_def ex_cfg_def)

lemma ex_before_save_ini_d:
  "before_save ex_env \<lparr>init = True, rlimSeconds = None\<rparr>
       \<lparr>json_file = None, ini_file = Some (ex_ini [''d''])\<rparr> world0 =
     Some (Rejected (ProcessExit 1),
       \<lparr>calls = [MkdirConfigDir, ReadConfigIni, WriteConfig (ex_cfg [''d'']), Authenticate ''d'',
                 ConnectionsList ''d'' [''names'', ''organizations'', ''clientData'', ''metadata''],
                 GroupsList ''d''],
        con = [(''d'', \<lparr>info = [(''people/d1'', ex_info None 0 ''Dan''), (''people/d2'', ex_info None 0 ''Dan'')],
                        infoGroup = []\<rparr>)],
        usedTags = [], rnd_pos = 0\<rparr>)"
  by (simp add: load_defs run_defs init_phase_def withBackoffM_Resolved ex_env_def ex_cfg_def ex_people_def
      build_info_def build_infoGroup_def duplicates_def set_add_def info_step_def ex_contact_def
      empty_person_def person_name_def ex_info_def tagls_def first_or_null_def)

lemma ex_run_ini_c:
  "runSync ex_env \<lparr>init = True, rlimSeconds = None\<rparr> \<lparr>json_file = None, ini_file = Some (ex_ini [''c''])\<rparr> =
     Some (Resolved (),
       \<lparr>calls = [MkdirConfigDir, ReadConfigIni, WriteConfig (ex_cfg [''c'']), Authenticate ''c'',
                 ConnectionsList ''c'' [''names'', ''organizations'', ''clientData'', ''metadata''],
                 GroupsList ''c'',
                 WriteConfig ((ex_cfg [''c''])\<lparr>cfg_last := Some (Time 6000)\<rparr>)],
        con = [(''c'', \<lparr>info = [], infoGroup = []\<rparr>)], usedTags = [], rnd_pos = 0\<rparr>)"
  unfolding runSync_def
  by (simp add: load_defs run_defs init_phase_def withBackoffM_Resolved ex_env_def ex_cfg_def ex_people_def
      build_info_def build_infoGroup_def duplicates_def)


theorem watermark_written_at_the_end_witness:
  "runSync ex_env \<lparr>init = True, rlimSeconds = None\<rparr> (ex_dir [''c'']) =
     Some (Resolved (),
       \<lparr>calls = [MkdirConfigDir, ReadConfigJson, Authenticate ''c'',
                 ConnectionsList ''c'' [''names'', ''organizations'', ''clientData'', ''metadata''],
                 GroupsList ''c'',
                 WriteConfig ((ex_cfg [''c''])\<lparr>cfg_last := Some (Time 6000)\<rparr>)],
        con = [(''c'', \<lparr>info = [], infoGroup = []\<rparr>)], usedTags = [], rnd_pos = 0\<rparr>)
   \<and> config_json ex_env []
        [MkdirConfigDir, ReadConfigJson, Authenticate ''c'',
         ConnectionsList ''c'' [''names'', ''organizations'', ''clientData'', ''metadata''],
         GroupsList ''c'',
         WriteConfig ((ex_cfg [''c''])\<lparr>cfg_last := Some (Time 6000)\<rparr>)]
        (Some (Parsed (ex_cfg [''c''])))
       = Some (Parsed ((ex_cfg [''c''])\<lparr>cfg_last := Some (Time 6000)\<rparr>))
   \<and> runSync ex_env \<lparr>init = True, rlimSeconds = None\<rparr> (ex_dir []) =
     Some (Rejected (ProcessExit 2),
       \<lparr>calls = [MkdirConfigDir, ReadConfigJson], con = [], usedTags = [], rnd_pos = 0\<rparr>)
   \<and> config_json ex_env [] [MkdirConfigDir, ReadConfigJson] (Some (Parsed (ex_cfg []))) = Some (Parsed (ex_cfg []))
   \<and> config_json ex_env []
        [MkdirConfigDir, ReadConfigIni, WriteConfig (ex_cfg [''d'']), Authenticate ''d'',
         ConnectionsList ''d'' [''names'', ''organizations'', ''clientData'', ''metadata''],
         GroupsList ''d''] None
       = Some (Parsed (ex_cfg [''d'']))
   \<and> cfg_last (ex_cfg [''d'']) = Some (Time 500)"
proof -
  let ?I = "\<lparr>init = True, rlimSeconds = None\<rparr>"
  let ?Wc = "\<lparr>calls = [MkdirConfigDir, ReadConfigJson, Authenticate ''c'',
                 ConnectionsList ''c'' [''names'', ''organizations'', ''clientData'', ''metadata''],
                 GroupsList ''c'',
                 WriteConfig ((ex_cfg [''c''])\<lparr>cfg_last := Some (Time 6000)\<rparr>)],
        con = [(''c'', \<lparr>info = [], infoGroup = []\<rparr>)], usedTags = [], rnd_pos = 0\<rparr>"
  let ?W0 = "\<lparr>calls = [MkdirConfigDir, ReadConfigJson], con = [], usedTags = [], rnd_pos = 0\<rparr>"
  let ?Wd = "\<lparr>calls = [MkdirConfigDir, ReadConfigIni, WriteConfig (ex_cfg [''d'']), Authenticate ''d'',
                 ConnectionsList ''d'' [''names'', ''organizations'', ''clientData'', ''metadata''],
                 GroupsList ''d''],
        con = [(''d'', \<lparr>info = [(''people/d1'', ex_info None 0 ''Dan''), (''people/d2'', ex_info None 0 ''Dan'')],
                        infoGroup = []\<rparr>)],
        usedTags = [], rnd_pos = 0\<rparr>"
  have sc: "saved_config ex_env (ex_cfg [''c''])
       \<lparr>calls = [MkdirConfigDir, ReadConfigJson, Authenticate ''c'',
                 ConnectionsList ''c'' [''names'', ''organizations'', ''clientData'', ''metadata''],
                 GroupsList ''c''],
        con = [(''c'', \<lparr>info = [], infoGroup = []\<rparr>)], usedTags = [], rnd_pos = 0\<rparr>
      = (ex_cfg [''c''])\<lparr>cfg_last := Some (Time 6000)\<rparr>"
    by (simp add: saved_config_def nowUtcPlus5SecondsIso_def ex_env_def ex_cfg_def)
  have mg: "migrateIniToJson (ex_ini [''d'']) = ex_cfg [''d'']"
    by (simp add: migrateIniToJson_def ex_ini_def ex_cfg_def)
  from watermark_written_at_the_end [of ex_env ?I "ex_dir [''c'']" ?Wc, THEN conjunct1] ex_run_c
  have a: "config_json ex_env [] (calls ?Wc) (json_file (ex_dir [''c''])) =
      Some (Parsed ((ex_cfg [''c''])\<lparr>cfg_last := Some (Time 6000)\<rparr>))"
    unfolding ex_before_save_c using sc by auto
  from watermark_written_at_the_end [of ex_env ?I "ex_dir []" ?W0 "ProcessExit 2",
      THEN conjunct2, THEN conjunct1] ex_before_save_none
  have b: "runSync ex_env ?I (ex_dir []) = Some (Rejected (ProcessExit 2), ?W0)"
    and b': "config_json ex_env [] (calls ?W0) (json_file (ex_dir [])) = json_file (ex_dir [])"
    by (simp_all add: ex_dir_def)
  from watermark_written_at_the_end [of ex_env ?I "\<lparr>json_file = None, ini_file = Some (ex_ini [''d''])\<rparr>" ?Wd
      "ProcessExit 1" "ex_ini [''d'']", THEN conjunct2, THEN conjunct1] ex_before_save_ini_d
  have c: "config_json ex_env [] (calls ?Wd) None = Some (Parsed (ex_cfg [''d'']))"
    unfolding mg by (simp add: ex_env_def)
  have d: "cfg_last (ex_cfg [''d'']) = Some (Time 500)" by (simp add: ex_cfg_def)
  show ?thesis using ex_run_c a b b' c d by (simp add: ex_dir_def)
qed

text \<open>
  The claim as stated fails: a run that starts from the legacy file and completes writes
  \<open>config.json\<close>, with its \<open>last\<close>, twice, the first time before any account is loaded.
\<close>

theorem watermark_written_once_counterexample:
  "runSync ex_env \<lparr>init = True, rlimSeconds = None\<rparr> \<lparr>json_file = None, ini_file = Some (ex_ini [''c''])\<rparr> =
     Some (Resolved (),
       \<lparr>calls = [MkdirConfigDir, ReadConfigIni, WriteConfig (ex_cfg [''c'']), Authenticate ''c'',
                 ConnectionsList ''c'' [''names'', ''organizations'', ''clientData'', ''metadata''],
                 GroupsList ''c'',
                 WriteConfig ((ex_cfg [''c''])\<lparr>cfg_last := Some (Time 6000)\<rparr>)],
        con = [(''c'', \<lparr>info = [], infoGroup = []\<rparr>)], usedTags = [], rnd_pos = 0\<rparr>)
   \<and> filter is_cfg_write
        [MkdirConfigDir, ReadConfigIni, WriteConfig (ex_cfg [''c'']), Authenticate ''c'',
         ConnectionsList ''c'' [''names'', ''organizations'', ''clientData'', ''metadata''],
         GroupsList ''c'',
         WriteConfig ((ex_cfg [''c''])\<lparr>cfg_last := Some (Time 6000)\<rparr>)]
       = [WriteConfig (ex_cfg [''c'']), WriteConfig ((ex_cfg [''c''])\<lparr>cfg_last := Some (Time 6000)\<rparr>)]"
  using ex_run_ini_c by simp

section \<open>Lookups by tag\<close>

text \<open>
  Claim C8. In the store of a replica, \<open>tagToRn\<close> and \<open>tagToRnContactGroup\<close> return \<open>null\<close>
  when no entry carries the tag, the resource name of the entry when exactly one entry
  carries it, and raise an error that tells the count when more than one does. When the tag
  maps to no entry, \<open>delete\<close>, \<open>update\<close>, \<open>deleteContactGroup\<close> and \<open>updateContactGroup\<close>
  return at once: no request is made and the state of the run is unchanged.
\<close>

theorem tag_lookup_uniqueness:
  "(filter (\<lambda>(k, v). tag v = Some t) st = [] \<longrightarrow> tagToRn st t = Inr None \<and> tagToRnContactGroup st t = Inr None)
   \<and> (filter (\<lambda>(k, v). tag v = Some t) st = [(rn, i)] \<longrightarrow>
        tagToRn st t = Inr (Some rn) \<and> tagToRnContactGroup st t = Inr (Some rn))
   \<and> (1 < length (filter (\<lambda>(k, v). tag v = Some t) st) \<longrightarrow>
        tagToRn st t = Inl (ExpectedOneRnForTag t (length (filter (\<lambda>(k, v). tag v = Some t) st))) \<and>
        tagToRnContactGroup st t = Inl (ExpectedOneGroupRnForTag t (length (filter (\<lambda>(k, v). tag v = Some t) st))))
   \<and> (tagToRn (info (the_replica w u)) t = Inr None \<longrightarrow>
        delete_contact ev u t w = Some (Resolved (), w) \<and>
        update_contact ev u t body w = Some (Resolved (), w))
   \<and> (tagToRnContactGroup (infoGroup (the_replica w u)) t = Inr None \<longrightarrow>
        deleteContactGroup ev u t w = Some (Resolved (), w) \<and>
        updateContactGroup ev u t gbody w = Some (Resolved (), w))"
  by (auto simp: tagToRn_def tagToRnContactGroup_def Let_def delete_contact_def update_contact_def
      deleteContactGroup_def updateContactGroup_def readM_def returnM_def)

theorem tag_lookup_uniqueness_witness:
  "tagToRn ex_store ''t0'' = Inr None \<and> tagToRnContactGroup ex_store ''t0'' = Inr None
   \<and> tagToRn ex_store ''t1'' = Inr (Some ''people/c1'')
   \<and> tagToRnContactGroup ex_store ''t1'' = Inr (Some ''people/c1'')
   \<and> tagToRn ex_store ''t2'' = Inl (ExpectedOneRnForTag ''t2'' 2)
   \<and> tagToRnContactGroup ex_store ''t2'' = Inl (ExpectedOneGroupRnForTag ''t2'' 2)
   \<and> delete_contact ex_env ''a'' ''t0'' ex_world = Some (Resolved (), ex_world)
   \<and> update_contact ex_env ''a'' ''t0'' empty_person ex_world = Some (Resolved (), ex_world)
   \<and> deleteContactGroup ex_env ''a'' ''t0'' ex_world = Some (Resolved (), ex_world)
   \<and> updateContactGroup ex_env ''a'' ''t0'' empty_group ex_world = Some (Resolved (), ex_world)"
proof -
  have f0: "filter (\<lambda>(k, v). tag v = Some ''t0'') ex_store = []"
    by (simp add: ex_store_def ex_info_def)
  have f1: "filter (\<lambda>(k, v). tag v = Some ''t1'') ex_store = [(''people/c1'', ex_info (Some ''t1'') 0 ''Ann'')]"
    by (simp add: ex_store_def ex_info_def)
  have f2: "filter (\<lambda>(k, v). tag v = Some ''t2'') ex_store =
      [(''people/c2'', ex_info (Some ''t2'') 0 ''Bea''), (''people/c3'', ex_info (Some ''t2'') 0 ''Cid'')]"
    by (simp add: ex_store_def ex_info_def)
  have r: "info (the_replica ex_world ''a'') = ex_store" "infoGroup (the_replica ex_world ''a'') = ex_store"
    by (simp_all add: ex_world_def the_replica_def)
  note T0 = tag_lookup_uniqueness [of "''t0''" ex_store "''x''" "ex_info None 0 []" ex_world "''a''" ex_env empty_person empty_group]
  note T1 = tag_lookup_uniqueness [of "''t1''" ex_store "''people/c1''" "ex_info (Some ''t1'') 0 ''Ann''" ex_world "''a''" ex_env empty_person empty_group]
  note T2 = tag_lookup_uniqueness [of "''t2''" ex_store "''x''" "ex_info None 0 []" ex_world "''a''" ex_env empty_person empty_group]
  have a: "tagToRn ex_store ''t0'' = Inr None \<and> tagToRnContactGroup ex_store ''t0'' = Inr None"
    using T0 f0 by blast
  have b: "tagToRn ex_store ''t1'' = Inr (Some ''people/c1'') \<and>
           tagToRnContactGroup ex_store ''t1'' = Inr (Some ''people/c1'')"
    using T1 f1 by blast
  have c: "tagToRn ex_store ''t2'' = Inl (ExpectedOneRnForTag ''t2'' 2) \<and>
           tagToRnContactGroup ex_store ''t2'' = Inl (ExpectedOneGroupRnForTag ''t2'' 2)"
    using T2 f2 by simp
  have d: "delete_contact ex_env ''a'' ''t0'' ex_world = Some (Resolved (), ex_world) \<and>
           update_contact ex_env ''a'' ''t0'' empty_person ex_world = Some (Resolved (), ex_world)"
    using T0 a r by simp
  have e: "deleteContactGroup ex_env ''a'' ''t0'' ex_world = Some (Resolved (), ex_world) \<and>
           updateContactGroup ex_env ''a'' ''t0'' empty_group ex_world = Some (Resolved (), ex_world)"
    using T0 a r by simp
  show ?thesis using a b c d e by simp
qed

section \<open>The init mode\<close>

lemma load_reads:
  assumes "loadConfigOrCreateDefault ev dir w0 = Some (r, w)"
  shows "con w = con w0 \<and> (list_all (\<lambda>c. \<not> is_write c) (calls w0) \<longrightarrow> list_all (\<lambda>c. \<not> is_write c) (calls w))"
  using assms
  by (auto simp: loadConfigOrCreateDefault_def bindM_def api_plain_def logged_def
      returnM_def throwM_def
      split: option.splits promise.splits attempt.splits json_content.splits if_splits)

lemma ex_cfgload:
  "loadConfigOrCreateDefault ex_env (ex_dir us) world0 =
     Some (Resolved (ex_cfg us),
       \<lparr>calls = [MkdirConfigDir, ReadConfigJson], con = [], usedTags = [], rnd_pos = 0\<rparr>)"
  by (simp add: loadConfigOrCreateDefault_def ex_dir_def bindM_def api_plain_def logged_def
      returnM_def world0_def ex_env_def)

lemma ex_load_ba:
  "init_accounts ex_env [''b'', ''a'']
       \<lparr>calls = [MkdirConfigDir, ReadConfigJson], con = [], usedTags = [], rnd_pos = 0\<rparr> =
     Some (Resolved (),
       \<lparr>calls = [MkdirConfigDir, ReadConfigJson,
                 Authenticate ''b'',
                 ConnectionsList ''b'' [''names'', ''organizations'', ''clientData'', ''metadata''],
                 GroupsList ''b'',
                 Authenticate ''a'',
                 ConnectionsList ''a'' [''names'', ''organizations'', ''clientData'', ''metadata''],
                 GroupsList ''a''],
        con = [(''b'', \<lparr>info = [(''people/b1'', ex_info None 0 ''BOB'')], infoGroup = []\<rparr>),
               (''a'', \<lparr>info = [(''people/a1'', ex_info None 0 ''Bob''), (''people/a2'', ex_info None 0 ''bob'')],
                        infoGroup = []\<rparr>)],
        usedTags = [], rnd_pos = 0\<rparr>)"
  by (simp add: run_defs withBackoffM_Resolved ex_env_def ex_stores build_infoGroup_def)

lemma ex_nameToRn:
  "nameToRn [(''people/a1'', ex_info None 0 ''Bob''), (''people/a2'', ex_info None 0 ''bob'')] ''BOB'' =
     Inl (ExpectedOneRnForName ''BOB'' 2)"
  "nameToRn [(''people/a1'', ex_info None 0 ''Bob''), (''people/a2'', ex_info None 0 ''bob'')] ''Bob'' =
     Inl (ExpectedOneRnForName ''Bob'' 2)"
  "nameToRn [(''people/a1'', ex_info None 0 ''Bob''), (''people/a2'', ex_info None 0 ''bob'')] ''bob'' =
     Inl (ExpectedOneRnForName ''bob'' 2)"
  by (simp_all add: nameToRn_def ex_info_def ex_lower Let_def)

lemma ex_dups:
  "duplicates [''Bob'', ''bob''] = []" "duplicates [''BOB''] = []"
  by (simp_all add: duplicates_def set_add_def)

lemma ex_init_ba:
  "init_phase ex_env \<lparr>init = True, rlimSeconds = None\<rparr>
       \<lparr>calls = l,
        con = [(''b'', \<lparr>info = [(''people/b1'', ex_info None 0 ''BOB'')], infoGroup = []\<rparr>),
               (''a'', \<lparr>info = [(''people/a1'', ex_info None 0 ''Bob''), (''people/a2'', ex_info None 0 ''bob'')],
                        infoGroup = []\<rparr>)],
        usedTags = [], rnd_pos = 0\<rparr> =
     Some (Rejected (ExpectedOneRnForName ''BOB'' 2),
       \<lparr>calls = l @ [PeopleGet ''b'' ''people/b1'' [''clientData''],
                 UpdateContact ''b'' ''people/b1'' [''clientData'']
                   (empty_person\<lparr>p_etag := Some ''e'',
                      p_clientData := Some [(Some SYNC_TAG, Some ''aaaaaaaaaaaaaaaaaaaa'')]\<rparr>),
                 PeopleGet ''b'' ''people/b1'' allPersonFields],
        con = [(''b'', \<lparr>info = [(''people/b1'', ex_info (Some ''aaaaaaaaaaaaaaaaaaaa'') 0 ''BOB'')], infoGroup = []\<rparr>),
               (''a'', \<lparr>info = [(''people/a1'', ex_info None 0 ''Bob''), (''people/a2'', ex_info None 0 ''bob'')],
                        infoGroup = []\<rparr>)],
        usedTags = [''aaaaaaaaaaaaaaaaaaaa''], rnd_pos = 20\<rparr>)"
  by (simp add: init_phase_def init_entry_def bindM_def returnM_def throwM_def modifyM_def readM_def
      api_timed_def withTimeout_def logged_def the_replica_def set_info_def set_tag_def Let_def
      newTagM_def updateTag_def get_contact_def with_tag_def
      withBackoffM_Resolved ex_env_def ex_dups ex_nameToRn [unfolded ex_info_def] ex_newTag ex_info_def
      ex_contact_def empty_person_def SYNC_TAG_def)


text \<open>
  Claim C10. The duplicate check of the init mode compares names exactly, \<open>nameToRn\<close>
  compares them without case. The account \<open>a\<close> of the example holds exactly the two contacts
  \<open>Bob\<close> and \<open>bob\<close>: its set of duplicates is empty, a lookup of either name in its store
  raises the error, and the init run over the accounts \<open>b\<close> and \<open>a\<close> passes the check and ends
  with that error of a lookup in \<open>a\<close>, the configuration file being as it was.
\<close>

theorem init_guard_case_mismatch:
  "map (\<lambda>(rn, i). name i) (build_info (ex_people ''a'')) = [''Bob'', ''bob'']
   \<and> toLowerCase ''Bob'' = toLowerCase ''bob''
   \<and> duplicates (map (\<lambda>(rn, i). name i) (build_info (ex_people ''a''))) = []
   \<and> nameToRn (build_info (ex_people ''a'')) ''Bob'' = Inl (ExpectedOneRnForName ''Bob'' 2)
   \<and> nameToRn (build_info (ex_people ''a'')) ''bob'' = Inl (ExpectedOneRnForName ''bob'' 2)
   \<and> runSync ex_env \<lparr>init = True, rlimSeconds = None\<rparr> (ex_dir [''b'', ''a'']) =
       Some (Rejected (ExpectedOneRnForName ''BOB'' 2),
         \<lparr>calls = [MkdirConfigDir, ReadConfigJson,
                   Authenticate ''b'',
                   ConnectionsList ''b'' [''names'', ''organizations'', ''clientData'', ''metadata''],
                   GroupsList ''b'',
                   Authenticate ''a'',
                   ConnectionsList ''a'' [''names'', ''organizations'', ''clientData'', ''metadata''],
                   GroupsList ''a'',
                   PeopleGet ''b'' ''people/b1'' [''clientData''],
                   UpdateContact ''b'' ''people/b1'' [''clientData'']
                     (empty_person\<lparr>p_etag := Some ''e'',
                        p_clientData := Some [(Some SYNC_TAG, Some ''aaaaaaaaaaaaaaaaaaaa'')]\<rparr>),
                   PeopleGet ''b'' ''people/b1'' allPersonFields],
          con = [(''b'', \<lparr>info = [(''people/b1'', ex_info (Some ''aaaaaaaaaaaaaaaaaaaa'') 0 ''BOB'')],
                          infoGroup = []\<rparr>),
                 (''a'', \<lparr>info = [(''people/a1'', ex_info None 0 ''Bob''), (''people/a2'', ex_info None 0 ''bob'')],
                          infoGroup = []\<rparr>)],
          usedTags = [''aaaaaaaaaaaaaaaaaaaa''], rnd_pos = 20\<rparr>)
   \<and> config_json ex_env []
        [MkdirConfigDir, ReadConfigJson,
         Authenticate ''b'',
         ConnectionsList ''b'' [''names'', ''organizations'', ''clientData'', ''metadata''],
         GroupsList ''b'',
         Authenticate ''a'',
         ConnectionsList ''a'' [''names'', ''organizations'', ''clientData'', ''metadata''],
         GroupsList ''a'',
         PeopleGet ''b'' ''people/b1'' [''clientData''],
         UpdateContact ''b'' ''people/b1'' [''clientData'']
           (empty_person\<lparr>p_etag := Some ''e'',
              p_clientData := Some [(Some SYNC_TAG, Some ''aaaaaaaaaaaaaaaaaaaa'')]\<rparr>),
         PeopleGet ''b'' ''people/b1'' allPersonFields]
        (json_file (ex_dir [''b'', ''a''])) = Some (Parsed (ex_cfg [''b'', ''a'']))"
proof -
  have n: "map (\<lambda>(rn, i). name i) (build_info (ex_people ''a'')) = [''Bob'', ''bob'']"
    by (simp add: ex_stores ex_info_def)
  have g: "getAccounts (ex_cfg [''b'', ''a'']) = [''b'', ''a'']" "getBackupDays (ex_cfg [''b'', ''a'']) = 0"
    by (simp_all add: getAccounts_def getBackupDays_def ex_cfg_def)
  have r: "run_body ex_env \<lparr>init = True, rlimSeconds = None\<rparr> (ex_cfg [''b'', ''a''])
       \<lparr>calls = [MkdirConfigDir, ReadConfigJson], con = [], usedTags = [], rnd_pos = 0\<rparr> =
      init_phase ex_env \<lparr>init = True, rlimSeconds = None\<rparr>
       \<lparr>calls = [MkdirConfigDir, ReadConfigJson,
                 Authenticate ''b'',
                 ConnectionsList ''b'' [''names'', ''organizations'', ''clientData'', ''metadata''],
                 GroupsList ''b'',
                 Authenticate ''a'',
                 ConnectionsList ''a'' [''names'', ''organizations'', ''clientData'', ''metadata''],
                 GroupsList ''a''],
        con = [(''b'', \<lparr>info = [(''people/b1'', ex_info None 0 ''BOB'')], infoGroup = []\<rparr>),
               (''a'', \<lparr>info = [(''people/a1'', ex_info None 0 ''Bob''), (''people/a2'', ex_info None 0 ''bob'')],
                        infoGroup = []\<rparr>)],
        usedTags = [], rnd_pos = 0\<rparr>"
    unfolding run_body_def g by (simp add: bindM_def ex_load_ba backup_phase_def returnM_def)
  have b: "before_save ex_env \<lparr>init = True, rlimSeconds = None\<rparr> (ex_dir [''b'', ''a'']) world0 =
      bindM (run_body ex_env \<lparr>init = True, rlimSeconds = None\<rparr> (ex_cfg [''b'', ''a'']))
        (\<lambda>_. returnM (ex_cfg [''b'', ''a'']))
        \<lparr>calls = [MkdirConfigDir, ReadConfigJson], con = [], usedTags = [], rnd_pos = 0\<rparr>"
    unfolding before_save_def by (simp add: bindM_def ex_cfgload)
  show ?thesis
    unfolding n runSync_def bindM_def b
    by (simp add: r ex_init_ba ex_stores ex_lower ex_dups ex_nameToRn ex_dir_def)
qed

text \<open>
  Claim C4, for the contacts. In an init run, when the configuration and the accounts have
  been loaded and the backup made, and the store of some replica holds two contacts with the
  same display name, the run ends with \<open>process.exit(1)\<close> in that very state: nothing happens
  after the load, and the log of the run holds no request that creates, updates or deletes a
  contact or a group.
\<close>

theorem init_guard_halts_before_any_write:
  assumes i: "init opts"
    and cfgload: "loadConfigOrCreateDefault ev dir world0 = Some (Resolved cfg, w0)"
    and load: "bindM (init_accounts ev (getAccounts cfg)) (\<lambda>_. backup_phase ev (getBackupDays cfg)) w0
                 = Some (Resolved (), w)"
    and rep: "(u, r) \<in> set (con w)"
    and dup: "i < j" "j < length (info r)" "name (snd (info r ! i)) = name (snd (info r ! j))"
  shows "runSync ev opts dir = Some (Rejected (ProcessExit 1), w)
       \<and> list_all (\<lambda>c. \<not> is_write c) (calls w)"
proof -
  obtain w1 where l1: "init_accounts ev (getAccounts cfg) w0 = Some (Resolved (), w1)"
    and l2: "backup_phase ev (getBackupDays cfg) w1 = Some (Resolved (), w)"
    using bindM_Some [OF load] by auto
  have c0: "con w0 = []" and n0: "list_all (\<lambda>c. \<not> is_write c) (calls w0)"
    using load_reads [OF cfgload] by (simp_all add: world0_def)
  \<comment> \<open>the keys of \<open>con\<close> are distinct\<close>
  have "distinct (map fst (con w0))" by (simp add: c0)
  with pres_keys_init_accounts l1 have "distinct (map fst (con w1))"
    unfolding preserves_def by blast
  with pres_con_backup_phase [of "\<lambda>c. distinct (map fst c)"] l2 have dk: "distinct (map fst (con w))"
    unfolding preserves_def by blast
  with rep have tr: "the_replica w u = r" by (simp add: the_replica_def)
  \<comment> \<open>there are accounts\<close>
  have ne: "getAccounts cfg \<noteq> []"
  proof
    assume e: "getAccounts cfg = []"
    with l1 have "w1 = w0" by (simp add: init_accounts_def returnM_def)
    then have "con w1 = []" by (simp add: c0)
    with pres_con_backup_phase [of "\<lambda>c. c = []"] l2 have "con w = []"
      unfolding preserves_def by blast
    with rep show False by simp
  qed
  \<comment> \<open>the guard\<close>
  have nd: "\<not> distinct (map (\<lambda>(rn, i). name i) (info r))"
  proof
    assume d: "distinct (map (\<lambda>(rn, i). name i) (info r))"
    have "i < length (info r)" using dup by simp
    with d dup show False by (auto simp: distinct_conv_nth case_prod_unfold)
  qed
  have "u \<in> set (map fst (con w))" using rep by force
  with nd tr have "\<exists>u \<in> set (map fst (con w)). \<not> distinct (map (\<lambda>(rn, i). name i) (info (the_replica w u)))"
    by blast
  then have g: "init_phase ev opts w = Some (Rejected (ProcessExit 1), w)" by (rule init_phase_guard)
  have rb: "run_body ev opts cfg w0 = Some (Rejected (ProcessExit 1), w)"
    unfolding run_body_def using ne i by (simp add: bindM_assoc_run load g)
  have bs: "before_save ev opts dir world0 = Some (Rejected (ProcessExit 1), w)"
    unfolding before_save_def by (simp add: bindM_def cfgload rb)
  \<comment> \<open>no write so far\<close>
  have c: "closed_under (\<lambda>c. \<not> is_write c \<and> \<not> is_cfg_write c) (list_all (\<lambda>c. \<not> is_write c))"
    by (simp add: closed_under_def)
  from pres_init_accounts_reads [OF c] l1 n0 have "list_all (\<lambda>c. \<not> is_write c) (calls w1)"
    unfolding preserves_def by blast
  with pres_backup_phase_reads [OF c] l2 have nw: "list_all (\<lambda>c. \<not> is_write c) (calls w)"
    unfolding preserves_def by blast
  show ?thesis using bs nw by (simp add: runSync_def bindM_def)
qed


lemma ex_load_d:
  "bindM (init_accounts ex_env (getAccounts (ex_cfg [''d'']))) (\<lambda>_. backup_phase ex_env (getBackupDays (ex_cfg [''d''])))
       \<lparr>calls = [MkdirConfigDir, ReadConfigJson], con = [], usedTags = [], rnd_pos = 0\<rparr> =
     Some (Resolved (),
       \<lparr>calls = [MkdirConfigDir, ReadConfigJson, Authenticate ''d'',
                 ConnectionsList ''d'' [''names'', ''organizations'', ''clientData'', ''metadata''],
                 GroupsList ''d''],
        con = [(''d'', \<lparr>info = [(''people/d1'', ex_info None 0 ''Dan''), (''people/d2'', ex_info None 0 ''Dan'')],
                        infoGroup = []\<rparr>)],
        usedTags = [], rnd_pos = 0\<rparr>)"
  by (simp add: run_defs withBackoffM_Resolved ex_env_def ex_cfg_def build_infoGroup_def
      build_info_def info_step_def ex_people_def ex_contact_def empty_person_def
      person_name_def ex_info_def tagls_def first_or_null_def)

theorem init_guard_halts_before_any_write_witness:
  "runSync ex_env \<lparr>init = True, rlimSeconds = None\<rparr> (ex_dir [''d'']) =
     Some (Rejected (ProcessExit 1),
       \<lparr>calls = [MkdirConfigDir, ReadConfigJson, Authenticate ''d'',
                 ConnectionsList ''d'' [''names'', ''organizations'', ''clientData'', ''metadata''],
                 GroupsList ''d''],
        con = [(''d'', \<lparr>info = [(''people/d1'', ex_info None 0 ''Dan''), (''people/d2'', ex_info None 0 ''Dan'')],
                        infoGroup = []\<rparr>)],
        usedTags = [], rnd_pos = 0\<rparr>)
   \<and> list_all (\<lambda>c. \<not> is_write c)
        [MkdirConfigDir, ReadConfigJson, Authenticate ''d'',
         ConnectionsList ''d'' [''names'', ''organizations'', ''clientData'', ''metadata''],
         GroupsList ''d'']"
proof -
  let ?r = "\<lparr>info = [(''people/d1'', ex_info None 0 ''Dan''), (''people/d2'', ex_info None 0 ''Dan'')],
             infoGroup = []\<rparr>"
  have i: "init \<lparr>init = True, rlimSeconds = None\<rparr>" by simp
  have d: "(0::nat) < 1" "1 < length (info ?r)" "name (snd (info ?r ! 0)) = name (snd (info ?r ! 1))"
    by (simp_all add: ex_info_def)
  from init_guard_halts_before_any_write [OF i ex_cfgload ex_load_d _ d, of "''d''"]
  show ?thesis by simp
qed

text \<open>
  The claim as stated, for every entity, fails: the guard looks at the contacts only. The
  account \<open>g\<close> of the example holds one contact and two contact groups, both groups named
  \<open>Ann\<close>. Its init run passes the guard, gives the contact a tag with a request that updates
  it, and completes.
\<close>

lemma ex_run_g:
  "runSync ex_env \<lparr>init = True, rlimSeconds = None\<rparr> (ex_dir [''g'']) =
     Some (Resolved (),
       \<lparr>calls = [MkdirConfigDir, ReadConfigJson, Authenticate ''g'',
                 ConnectionsList ''g'' [''names'', ''organizations'', ''clientData'', ''metadata''],
                 GroupsList ''g'',
                 PeopleGet ''g'' ''people/g1'' [''clientData''],
                 UpdateContact ''g'' ''people/g1'' [''clientData'']
                   (empty_person\<lparr>p_etag := Some ''e'',
                      p_clientData := Some [(Some SYNC_TAG, Some ''aaaaaaaaaaaaaaaaaaaa'')]\<rparr>),
                 PeopleGet ''g'' ''people/g1'' allPersonFields,
                 WriteConfig ((ex_cfg [''g''])\<lparr>cfg_last := Some (Time 6000)\<rparr>)],
        con = [(''g'', \<lparr>info = [(''people/g1'', ex_info (Some ''aaaaaaaaaaaaaaaaaaaa'') 0 ''Ann'')],
                        infoGroup = [(''contactGroups/g1'', ex_info None 0 ''Ann''),
                                     (''contactGroups/g2'', ex_info None 0 ''Ann'')]\<rparr>)],
        usedTags = [''aaaaaaaaaaaaaaaaaaaa''], rnd_pos = 20\<rparr>)"
  unfolding runSync_def
  by (simp add: load_defs run_defs init_phase_def init_entry_def set_tag_def newTagM_def updateTag_def
      get_contact_def with_tag_def Let_def nameToRn_def
      withBackoffM_Resolved ex_newTag ex_env_def ex_cfg_def ex_people_def ex_groups_def ex_group_def
      build_info_def build_infoGroup_def infoGroup_step_def duplicates_def set_add_def info_step_def
      ex_contact_def empty_person_def empty_group_def person_name_def ex_info_def tagls_def
      first_or_null_def SYNC_TAG_def)

theorem init_guard_entities_counterexample:
  "runSync ex_env \<lparr>init = True, rlimSeconds = None\<rparr> (ex_dir [''g'']) =
     Some (Resolved (),
       \<lparr>calls = [MkdirConfigDir, ReadConfigJson, Authenticate ''g'',
                 ConnectionsList ''g'' [''names'', ''organizations'', ''clientData'', ''metadata''],
                 GroupsList ''g'',
                 PeopleGet ''g'' ''people/g1'' [''clientData''],
                 UpdateContact ''g'' ''people/g1'' [''clientData'']
                   (empty_person\<lparr>p_etag := Some ''e'',
                      p_clientData := Some [(Some SYNC_TAG, Some ''aaaaaaaaaaaaaaaaaaaa'')]\<rparr>),
                 PeopleGet ''g'' ''people/g1'' allPersonFields,
                 WriteConfig ((ex_cfg [''g''])\<lparr>cfg_last := Some (Time 6000)\<rparr>)],
        con = [(''g'', \<lparr>info = [(''people/g1'', ex_info (Some ''aaaaaaaaaaaaaaaaaaaa'') 0 ''Ann'')],
                        infoGroup = [(''contactGroups/g1'', ex_info None 0 ''Ann''),
                                     (''contactGroups/g2'', ex_info None 0 ''Ann'')]\<rparr>)],
        usedTags = [''aaaaaaaaaaaaaaaaaaaa''], rnd_pos = 20\<rparr>)
   \<and> build_infoGroup (ex_groups ''g'') =
       [(''contactGroups/g1'', ex_info None 0 ''Ann''), (''contactGroups/g2'', ex_info None 0 ''Ann'')]
   \<and> is_write (UpdateContact ''g'' ''people/g1'' [''clientData'']
                   (empty_person\<lparr>p_etag := Some ''e'',
                      p_clientData := Some [(Some SYNC_TAG, Some ''aaaaaaaaaaaaaaaaaaaa'')]\<rparr>))"
  using ex_run_g
  by (simp add: build_infoGroup_def infoGroup_step_def ex_groups_def ex_group_def empty_group_def
      ex_info_def tagls_def first_or_null_def)

section \<open>Reconciliation of the contacts\<close>

text \<open>
  Claim C1. In a run that is not an init run, the set \<open>toDelete\<close> holds exactly the tags
  that the store of at least one active account has and the store of at least one active
  account lacks, at the moment the set of all tags is built; that is the union, over the
  active accounts, of all tags minus the tags of the account. When the deletion phase
  completes, every active account has been asked to delete the contact its store holds under
  each of these tags and has answered; and whatever the outcome of the phase, it asks for no
  other change of a replica.
\<close>

theorem deletion_propagation:
  "(t \<in> set (to_delete (all_tags (stores w active)) (stores w active)) \<longleftrightarrow>
      (\<exists>u \<in> set active. t \<in> set (tags_of (info (the_replica w u)))) \<and>
      (\<exists>u \<in> set active. t \<notin> set (tags_of (info (the_replica w u)))))
   \<and> set (to_delete (all_tags (stores w active)) (stores w active)) =
      (\<Union>u \<in> set active. (\<Union>u' \<in> set active. set (tags_of (info (the_replica w u'))))
                                - set (tags_of (info (the_replica w u))))
   \<and> (contacts_delete_phase ev active w = Some (Resolved (), w') \<longrightarrow>
        (\<forall>u \<in> set active. \<forall>t \<in> set (to_delete (all_tags (stores w active)) (stores w active)). \<forall>rn.
            tagToRn (info (the_replica w u)) t = Inr (Some rn) \<and> rn \<noteq> [] \<longrightarrow>
            answered ev (calls w') (DeleteContact u rn)))
   \<and> (contacts_delete_phase ev active w = Some (r, w') \<longrightarrow>
        (\<exists>cs. calls w' = calls w @ cs \<and>
           (\<forall>c \<in> set cs. is_write c \<longrightarrow>
              propagated_delete w active (to_delete (all_tags (stores w active)) (stores w active)) c)))"
proof (intro conjI impI)
  let ?D = "to_delete (all_tags (stores w active)) (stores w active)"
  show s: "set ?D = (\<Union>u \<in> set active. (\<Union>u' \<in> set active. set (tags_of (info (the_replica w u'))))
                                - set (tags_of (info (the_replica w u))))"
    by (simp add: set_to_delete set_all_tags stores_def)
  show "t \<in> set ?D \<longleftrightarrow>
      (\<exists>u \<in> set active. t \<in> set (tags_of (info (the_replica w u)))) \<and>
      (\<exists>u \<in> set active. t \<notin> set (tags_of (info (the_replica w u))))"
    unfolding s by blast
next
  let ?D = "to_delete (all_tags (stores w active)) (stores w active)"
  assume p: "contacts_delete_phase ev active w = Some (Resolved (), w')"
  show "\<forall>u \<in> set active. \<forall>t \<in> set ?D. \<forall>rn.
            tagToRn (info (the_replica w u)) t = Inr (Some rn) \<and> rn \<noteq> [] \<longrightarrow>
            answered ev (calls w') (DeleteContact u rn)"
  proof (cases "?D = []")
    case True
    then show ?thesis by simp
  next
    case False
    with p have "bindM (forM active (\<lambda>u. forM ?D (\<lambda>t. delete_contact ev u t)))
        (\<lambda>_. forM active (getInfo ev)) w = Some (Resolved (), w')"
      by (simp add: contacts_delete_phase_def readM_def Let_def)
    from bindM_Some [OF this] obtain w1 where
      d: "forM active (\<lambda>u. forM ?D (\<lambda>t. delete_contact ev u t)) w = Some (Resolved (), w1)"
      and g: "forM active (getInfo ev) w1 = Some (Resolved (), w')" by auto
    from delete_loops_answered [OF d]
    have "\<forall>u \<in> set active. \<forall>t. t \<in> set ?D \<longrightarrow> del_ok ev w u t w1" by blast
    with refresh_answered [OF g]
    have "\<forall>u \<in> set active. \<forall>t. t \<in> set ?D \<longrightarrow> del_ok ev w u t w'" by blast
    then show ?thesis unfolding del_ok_def by blast
  qed
next
  let ?D = "to_delete (all_tags (stores w active)) (stores w active)"
  assume p: "contacts_delete_phase ev active w = Some (r, w')"
  show "\<exists>cs. calls w' = calls w @ cs \<and> (\<forall>c \<in> set cs. is_write c \<longrightarrow> propagated_delete w active ?D c)"
  proof (cases "?D = []")
    case True
    with p have "w' = w" by (simp add: contacts_delete_phase_def readM_def Let_def returnM_def)
    then show ?thesis by simp
  next
    case False
    with p have "bindM (forM active (\<lambda>u. forM ?D (\<lambda>t. delete_contact ev u t)))
        (\<lambda>_. forM active (getInfo ev)) w = Some (r, w')"
      by (simp add: contacts_delete_phase_def readM_def Let_def)
    from bindM_Some [OF this] show ?thesis
    proof
      assume "\<exists>e. forM active (\<lambda>u. forM ?D (\<lambda>t. delete_contact ev u t)) w = Some (Rejected e, w') \<and> r = Rejected e"
      then show ?thesis using delete_loops_only by blast
    next
      assume "\<exists>x w1. forM active (\<lambda>u. forM ?D (\<lambda>t. delete_contact ev u t)) w = Some (Resolved x, w1) \<and>
                forM active (getInfo ev) w1 = Some (r, w')"
      then obtain x w1 where d: "forM active (\<lambda>u. forM ?D (\<lambda>t. delete_contact ev u t)) w = Some (Resolved x, w1)"
        and g: "forM active (getInfo ev) w1 = Some (r, w')" by blast
      from refresh_only [OF g delete_loops_only [OF d]] show ?thesis .
    qed
  qed
qed


theorem deletion_propagation_witness:
  "to_delete (all_tags (stores ex_world2 [''a'', ''b''])) (stores ex_world2 [''a'', ''b'']) = [''t2'']
   \<and> ''t2'' \<in> set (tags_of (info (the_replica ex_world2 ''a'')))
   \<and> ''t2'' \<notin> set (tags_of (info (the_replica ex_world2 ''b'')))
   \<and> contacts_delete_phase ex_env [''a'', ''b''] ex_world2 =
     Some (Resolved (),
       \<lparr>calls = [DeleteContact ''a'' ''people/c2'',
                 ConnectionsList ''a'' [''names'', ''organizations'', ''clientData'', ''metadata''],
                 GroupsList ''a'',
                 ConnectionsList ''b'' [''names'', ''organizations'', ''clientData'', ''metadata''],
                 GroupsList ''b''],
        con = [(''a'', \<lparr>info = [(''people/a1'', ex_info None 0 ''Bob''), (''people/a2'', ex_info None 0 ''bob'')],
                        infoGroup = []\<rparr>),
               (''b'', \<lparr>info = [(''people/b1'', ex_info None 0 ''BOB'')], infoGroup = []\<rparr>)],
        usedTags = [], rnd_pos = 0\<rparr>)
   \<and> answered ex_env
        [DeleteContact ''a'' ''people/c2'',
         ConnectionsList ''a'' [''names'', ''organizations'', ''clientData'', ''metadata''],
         GroupsList ''a'',
         ConnectionsList ''b'' [''names'', ''organizations'', ''clientData'', ''metadata''],
         GroupsList ''b'']
        (DeleteContact ''a'' ''people/c2'')
   \<and> propagated_delete ex_world2 [''a'', ''b''] [''t2''] (DeleteContact ''a'' ''people/c2'')"
proof -
  let ?W = "\<lparr>calls = [DeleteContact ''a'' ''people/c2'',
                 ConnectionsList ''a'' [''names'', ''organizations'', ''clientData'', ''metadata''],
                 GroupsList ''a'',
                 ConnectionsList ''b'' [''names'', ''organizations'', ''clientData'', ''metadata''],
                 GroupsList ''b''],
        con = [(''a'', \<lparr>info = [(''people/a1'', ex_info None 0 ''Bob''), (''people/a2'', ex_info None 0 ''bob'')],
                        infoGroup = []\<rparr>),
               (''b'', \<lparr>info = [(''people/b1'', ex_info None 0 ''BOB'')], infoGroup = []\<rparr>)],
        usedTags = [], rnd_pos = 0\<rparr>"
  note T = deletion_propagation [of "''t2''" ex_world2 "[''a'', ''b'']" ex_env ?W "Resolved ()",
      unfolded ex2_to_delete]
  have m: "''t2'' \<in> set [''t2'']" by simp
  from T [THEN conjunct1] m
  have t: "(\<exists>u \<in> set [''a'', ''b'']. ''t2'' \<in> set (tags_of (info (the_replica ex_world2 u)))) \<and>
      (\<exists>u \<in> set [''a'', ''b'']. ''t2'' \<notin> set (tags_of (info (the_replica ex_world2 u))))"
    by blast
  have nb: "''t2'' \<notin> set (tags_of (info (the_replica ex_world2 ''b'')))"
    by (simp add: ex2_replicas tags_of_def ex_info_def)
  with t have ta: "''t2'' \<in> set (tags_of (info (the_replica ex_world2 ''a'')))" by auto
  from T [THEN conjunct2, THEN conjunct2, THEN conjunct1] ex2_delete_phase ex2_lookups(1)
  have a: "answered ex_env (calls ?W) (DeleteContact ''a'' ''people/c2'')" by simp
  from T [THEN conjunct2, THEN conjunct2, THEN conjunct2] ex2_delete_phase
  have "\<exists>cs. calls ?W = calls ex_world2 @ cs \<and>
           (\<forall>c \<in> set cs. is_write c \<longrightarrow> propagated_delete ex_world2 [''a'', ''b''] [''t2''] c)" by blast
  then have p: "propagated_delete ex_world2 [''a'', ''b''] [''t2''] (DeleteContact ''a'' ''people/c2'')"
    by (auto simp: ex_world2_def world0_def)
  show ?thesis using ex2_to_delete ta nb ex2_delete_phase a p by simp
qed

end
